theory Spec2Isabelle
  imports Complex_Main "HOL-Library.Log_Nat"
begin

section \<open>Values exchanged with the outside world\<close>

text \<open>
  The dashboard (\<^verbatim>\<open>src/App.tsx\<close>, its commented copy and the write variant of the
  same component, and \<^verbatim>\<open>src/components/LineChart.tsx\<close>) is a React component:
  six state cells, three MQTT event handlers, one click handler and a render function.
  The model keeps the state cells in a record, makes every handler a function from the
  state to the new state together with the effects it issues, and makes every promise
  callback a handler of its own, run when the promise settles.
\<close>

text \<open>
  A TypeScript \<^verbatim>\<open>number\<close> is an IEEE-754 binary64 value: a finite value, written
  as the rational it stands for, one of the two infinities, or NaN. The sign of zero is
  not kept: none of the comparisons made below can tell the two zeros apart.
\<close>

datatype number = NaN | NegInf | Fin rat | PosInf

text \<open>
  What \<^verbatim>\<open>JSON.parse\<close> can return. An object is the list of its fields, each name
  once.
\<close>

datatype json =
    JNull
  | JBool bool
  | JNum number
  | JStr string
  | JArr "json list"
  | JObj "(string \<times> json) list"

text \<open>What a \<^verbatim>\<open>try\<close> block or a rejected promise can see.\<close>

datatype exn = SyntaxError string | TypeError string | OtherError string

text \<open>
  The Reading shape of the state cell's declared type,
  \<^verbatim>\<open>{ temperature: number; humidity: number }\<close>: an object whose two fields of
  these names are numbers.
\<close>

fun is_Reading :: "json \<Rightarrow> bool" where
  "is_Reading (JObj fs) =
     (case (map_of fs ''temperature'', map_of fs ''humidity'') of
        (Some (JNum t), Some (JNum h)) \<Rightarrow> True
      | _ \<Rightarrow> False)"
| "is_Reading _ = False"

text \<open>An element of the historical series, as the state cell declares it.\<close>

record historical =
  timestamp :: string
  temperature :: number
  humidity :: number

text \<open>
  The series arrives as JSON and is stored as it arrives. A JSON value is a series when it
  is an array of objects that each have a string \<^verbatim>\<open>timestamp\<close> and numbers
  \<^verbatim>\<open>temperature\<close> and \<^verbatim>\<open>humidity\<close>; \<open>readings\<close> reads it at the declared
  type, and \<open>series_json\<close> is the JSON form of a series.
\<close>

fun reading_of :: "json \<Rightarrow> historical option" where
  "reading_of (JObj fs) =
     (case (map_of fs ''timestamp'', map_of fs ''temperature'', map_of fs ''humidity'') of
        (Some (JStr t), Some (JNum a), Some (JNum b)) \<Rightarrow>
          Some \<lparr>timestamp = t, temperature = a, humidity = b\<rparr>
      | _ \<Rightarrow> None)"
| "reading_of _ = None"

fun readings :: "json \<Rightarrow> historical list option" where
  "readings (JArr js) = those (map reading_of js)"
| "readings _ = None"

definition reading_json :: "historical \<Rightarrow> json" where
  "reading_json d =
     JObj [(''timestamp'', JStr (timestamp d)), (''temperature'', JNum (temperature d)),
           (''humidity'', JNum (humidity d))]"

definition series_json :: "historical list \<Rightarrow> json" where
  "series_json series = JArr (map reading_json series)"

text \<open>
  A \<^verbatim>\<open>Date\<close> as \<^verbatim>\<open>fetchData\<close> reads it, through its three local-time getters:
  day of the month, month counted from 0, and full year.
\<close>

record date =
  getDate :: nat
  getMonth :: nat
  getFullYear :: int

section \<open>The component's state\<close>

record app_state =
  realTimeData :: json
  historicalData :: json
  isLoading :: bool
  mqttConnected :: bool
  selectedDate :: date
  lastUpdate :: "string option"

text \<open>
  The two cells that are filled from JSON hold whatever JSON value was stored in them,
  also one that is not of the type the cell declares.

  The initial state is made of the arguments of the \<^verbatim>\<open>useState\<close> calls;
  \<^verbatim>\<open>null\<close> is \<^const>\<open>JNull\<close> for the reading and \<^const>\<open>None\<close> for the time of the
  last update. The selected date starts as the day the component is mounted.
\<close>

definition initial_state :: "date \<Rightarrow> app_state" where
  "initial_state today =
     \<lparr>realTimeData = JNull, historicalData = JArr [], isLoading = False,
      mqttConnected = False, selectedDate = today, lastUpdate = None\<rparr>"

text \<open>What a handler does besides setting state.\<close>

datatype effect =
    ConsoleLog string
  | ConsoleError string
  | Subscribe string
  | HttpGet string
  | HttpPost json
  | ClientEnd

text \<open>
  A handler returns normally with the new state and its effects (\<^const>\<open>Inr\<close>), or an
  exception leaves it (\<^const>\<open>Inl\<close>).
\<close>

type_synonym outcome = "exn + app_state \<times> effect list"

definition MQTT_TOPIC :: string where
  "MQTT_TOPIC = ''sensor/data''"

section \<open>The MQTT handlers\<close>

text \<open>\<^verbatim>\<open>client.on("connect", ...)\<close>\<close>

definition on_connect :: "app_state \<Rightarrow> outcome" where
  "on_connect st =
     Inr (st\<lparr>mqttConnected := True\<rparr>, [ConsoleLog ''Connected to MQTT'', Subscribe MQTT_TOPIC])"

text \<open>
  \<^verbatim>\<open>client.on("message", ...)\<close> of \<^verbatim>\<open>App.tsx\<close>. \<^verbatim>\<open>JSON.parse\<close> belongs to the
  platform and is a parameter: it returns the decoded value or throws. \<open>now\<close> is what
  \<^verbatim>\<open>new Date().toLocaleTimeString()\<close> gives when the handler runs. The
  \<^verbatim>\<open>catch\<close> clause takes every exception of the \<^verbatim>\<open>try\<close> block.
\<close>

definition on_message ::
  "(string \<Rightarrow> exn + json) \<Rightarrow> string \<Rightarrow> string \<Rightarrow> string \<Rightarrow> app_state \<Rightarrow> outcome" where
  "on_message JSON_parse now topic rawMessage st =
     (if topic = MQTT_TOPIC then
        (case JSON_parse rawMessage of
           Inr newData \<Rightarrow> Inr (st\<lparr>realTimeData := newData, lastUpdate := Some now\<rparr>, [])
         | Inl error \<Rightarrow> Inr (st, [ConsoleError ''Error parsing MQTT message:'']))
      else Inr (st, []))"

text \<open>\<^verbatim>\<open>client.on("error", ...)\<close>\<close>

definition on_error :: "app_state \<Rightarrow> outcome" where
  "on_error st = Inr (st\<lparr>mqttConnected := False\<rparr>, [ConsoleError ''MQTT Connection Error:''])"

text \<open>The cleanup function of the effect.\<close>

definition on_unmount :: "app_state \<Rightarrow> outcome" where
  "on_unmount st = Inr (st, [ClientEnd])"

text \<open>
  The client calls the message handler once for each message, in the order of delivery.
  A delivery is the clock reading, the topic and the payload text.
\<close>

fun deliver ::
  "(string \<Rightarrow> exn + json) \<Rightarrow> (string \<times> string \<times> string) list \<Rightarrow> app_state \<Rightarrow> exn + app_state" where
  "deliver JSON_parse [] st = Inr st"
| "deliver JSON_parse ((now, topic, rawMessage) # ms) st =
     (case on_message JSON_parse now topic rawMessage st of
        Inl e \<Rightarrow> Inl e
      | Inr (st', fx) \<Rightarrow> deliver JSON_parse ms st')"

subsection \<open>The write variant\<close>

text \<open>
  The message handler of the variant that also stores each reading: after the two state
  updates it posts the decoded value to \<^verbatim>\<open>/api/sensor\<close>, inside the same
  \<^verbatim>\<open>try\<close> block. The request is only issued here; its promise settles later.
\<close>

definition on_message_write ::
  "(string \<Rightarrow> exn + json) \<Rightarrow> string \<Rightarrow> string \<Rightarrow> string \<Rightarrow> app_state \<Rightarrow> outcome" where
  "on_message_write JSON_parse now topic message st =
     (if topic = MQTT_TOPIC then
        (case JSON_parse message of
           Inr newData \<Rightarrow>
             Inr (st\<lparr>realTimeData := newData, lastUpdate := Some now\<rparr>, [HttpPost newData])
         | Inl error \<Rightarrow> Inr (st, [ConsoleError ''Error parsing MQTT message:'']))
      else Inr (st, []))"

text \<open>
  A response as a promise chain sees it: its status, and what \<^verbatim>\<open>res.json()\<close>
  settles with, the decoded body or the exception for a body that is not JSON.
  \<^verbatim>\<open>fetch\<close> itself rejects only when no response arrives. \<^verbatim>\<open>res.ok\<close> says
  whether the request succeeded, a status from 200 to 299; neither chain of the
  component reads it.
\<close>

record response =
  status :: nat
  body_json :: "exn + json"

definition ok :: "response \<Rightarrow> bool" where
  "ok res = (200 \<le> status res \<and> status res \<le> 299)"

text \<open>
  The spread \<^verbatim>\<open>[...prevData, savedData]\<close> takes the elements of an array or the
  characters of a string, and throws for every other JSON value.
\<close>

fun spread :: "json \<Rightarrow> exn + json list" where
  "spread (JArr js) = Inr js"
| "spread (JStr s) = Inr (map (\<lambda>c. JStr [c]) s)"
| "spread _ = Inl (TypeError ''prevData is not iterable'')"

text \<open>
  The callbacks of the POST's promise chain
  \<^verbatim>\<open>fetch(...).then(res => res.json()).then(...).catch(...)\<close>. When the chain
  resolves, the decoded body is appended to the series of the moment;
  \<^verbatim>\<open>setHistoricalData((prevData) => [...prevData, savedData])\<close> throws, when React
  runs it, if the cell holds a value that cannot be spread. When the chain rejects, the
  error is logged.
\<close>

definition write_settled :: "exn + response \<Rightarrow> app_state \<Rightarrow> outcome" where
  "write_settled settled st =
     (case settled of
        Inl err \<Rightarrow> Inr (st, [ConsoleError ''Error storing data:''])
      | Inr res \<Rightarrow>
          (case body_json res of
             Inl err \<Rightarrow> Inr (st, [ConsoleError ''Error storing data:''])
           | Inr savedData \<Rightarrow>
               (case spread (historicalData st) of
                  Inl e \<Rightarrow> Inl e
                | Inr prevData \<Rightarrow>
                    Inr (st\<lparr>historicalData := JArr (prevData @ [savedData])\<rparr>,
                         [ConsoleLog ''Data stored:'']))))"

section \<open>The historical query\<close>

subsection \<open>Formatting the date\<close>

text \<open>
  \<^verbatim>\<open>Number.prototype.toString\<close> on the integers the getters return: decimal digits,
  with a minus sign for a negative year.
\<close>

definition digit_char :: "nat \<Rightarrow> char" where
  "digit_char d = ''0123456789'' ! d"

fun nat_toString :: "nat \<Rightarrow> string" where
  "nat_toString n =
     (if n < 10 then [digit_char n] else nat_toString (n div 10) @ [digit_char (n mod 10)])"

declare nat_toString.simps [simp del]

definition Number_toString :: "int \<Rightarrow> string" where
  "Number_toString i =
     (if i < 0 then CHR ''-'' # nat_toString (nat (- i)) else nat_toString (nat i))"

text \<open>
  \<^verbatim>\<open>String.prototype.padStart\<close>: a string already long enough, or an empty filler,
  gives the string back; otherwise the filler is repeated and cut to the missing length.
\<close>

definition padStart :: "nat \<Rightarrow> string \<Rightarrow> string \<Rightarrow> string" where
  "padStart targetLength padString s =
     (if targetLength \<le> length s \<or> padString = [] then s
      else take (targetLength - length s)
             (concat (replicate (targetLength - length s) padString)) @ s)"

text \<open>
  \<^verbatim>\<open>String.prototype.slice\<close> with a start only: a negative start counts from the
  end and stops at the beginning of the string.
\<close>

definition slice :: "int \<Rightarrow> string \<Rightarrow> string" where
  "slice start s =
     (let len = int (length s);
          from = (if start < 0 then max (len + start) 0 else min start len)
      in drop (nat from) s)"

text \<open>The constant \<^verbatim>\<open>formattedDate\<close> of \<^verbatim>\<open>fetchData\<close>.\<close>

definition formattedDate :: "date \<Rightarrow> string" where
  "formattedDate d =
     (let day = padStart 2 ''0'' (Number_toString (int (getDate d)));
          month = padStart 2 ''0'' (Number_toString (int (getMonth d) + 1));
          year = slice (- 2) (Number_toString (getFullYear d))
      in day @ ''_'' @ month @ ''_'' @ year)"

subsection \<open>The request and its two callbacks\<close>

text \<open>
  \<^verbatim>\<open>fetchData\<close> sets the loading flag and issues the GET. The promise chain
  \<^verbatim>\<open>fetch(...).then(res => res.json()).then(...).catch(...)\<close> settles later, in
  \<open>fetch_settled\<close>. It resolves when a response arrives whose body is JSON, whatever
  the status of the response, and the decoded body is stored as the series. It rejects
  when no response arrives or the body is not JSON.
\<close>

definition fetchData :: "app_state \<Rightarrow> outcome" where
  "fetchData st =
     Inr (st\<lparr>isLoading := True\<rparr>,
          [HttpGet (''http://localhost:8080/api/sensor/'' @ formattedDate (selectedDate st))])"

definition fetch_settled :: "exn + response \<Rightarrow> app_state \<Rightarrow> outcome" where
  "fetch_settled settled st =
     (case settled of
        Inl err \<Rightarrow> Inr (st\<lparr>isLoading := False\<rparr>, [ConsoleError ''Error fetching data:''])
      | Inr res \<Rightarrow>
          (case body_json res of
             Inl err \<Rightarrow> Inr (st\<lparr>isLoading := False\<rparr>, [ConsoleError ''Error fetching data:''])
           | Inr data \<Rightarrow> Inr (st\<lparr>historicalData := data, isLoading := False\<rparr>, [])))"

subsection \<open>The component as a transition system\<close>

text \<open>
  Events are handled one at a time. Besides the state cells the system counts the GET
  requests that were issued and have not settled. The button that calls
  \<^verbatim>\<open>fetchData\<close> is rendered with \<^verbatim>\<open>disabled={isLoading}\<close>, so a click is possible
  only while the flag is false; a promise can settle only if its request was issued. An
  event that cannot happen gives \<^const>\<open>None\<close>. An exception leaving a handler would
  leave the state cells as they were.
\<close>

datatype event =
    Connect
  | Message string string string
  | TransportError
  | SelectDate date
  | ClickFetch
  | FetchSettled "exn + response"

record system =
  app :: app_state
  pending :: nat

fun is_HttpGet :: "effect \<Rightarrow> bool" where
  "is_HttpGet (HttpGet url) = True"
| "is_HttpGet _ = False"

definition commit :: "outcome \<Rightarrow> system \<Rightarrow> system" where
  "commit out s =
     (case out of
        Inl e \<Rightarrow> s
      | Inr (st, fx) \<Rightarrow> \<lparr>app = st, pending = pending s + length (filter is_HttpGet fx)\<rparr>)"

fun step :: "(string \<Rightarrow> exn + json) \<Rightarrow> event \<Rightarrow> system \<Rightarrow> system option" where
  "step JSON_parse Connect s = Some (commit (on_connect (app s)) s)"
| "step JSON_parse (Message now topic rawMessage) s =
     Some (commit (on_message JSON_parse now topic rawMessage (app s)) s)"
| "step JSON_parse TransportError s = Some (commit (on_error (app s)) s)"
| "step JSON_parse (SelectDate d) s = Some (s\<lparr>app := (app s)\<lparr>selectedDate := d\<rparr>\<rparr>)"
| "step JSON_parse ClickFetch s =
     (if isLoading (app s) then None else Some (commit (fetchData (app s)) s))"
| "step JSON_parse (FetchSettled settled) s =
     (if pending s = 0 then None
      else Some (commit (fetch_settled settled (app s)) (s\<lparr>pending := pending s - 1\<rparr>)))"

fun run :: "(string \<Rightarrow> exn + json) \<Rightarrow> event list \<Rightarrow> system \<Rightarrow> system option" where
  "run JSON_parse [] s = Some s"
| "run JSON_parse (e # es) s =
     (case step JSON_parse e s of None \<Rightarrow> None | Some s' \<Rightarrow> run JSON_parse es s')"

definition mounted :: "date \<Rightarrow> system" where
  "mounted today = \<lparr>app = initial_state today, pending = 0\<rparr>"

section \<open>Arithmetic on numbers\<close>

text \<open>
  Every arithmetic operation on numbers gives the binary64 value nearest to the exact
  result, ties going to the even significand. \<open>ilog2 x\<close> is the exponent of the binade
  of \<open>x\<close>, \<open>ulp x\<close> the spacing of the binary64 values there (the exponent does not go
  below that of the subnormal values), \<open>nearest x\<close> the nearest multiple of \<open>ulp x\<close>, and
  \<open>round64\<close> turns what lies beyond the largest finite value into an infinity.
\<close>

definition round_half_even :: "rat \<Rightarrow> int" where
  "round_half_even x =
     (let n = \<lfloor>x\<rfloor>; r = x - of_int n
      in if r < 1 / 2 then n else if 1 / 2 < r then n + 1 else if even n then n else n + 1)"

definition ilog2 :: "rat \<Rightarrow> int" where
  "ilog2 x =
     (let (p, q) = quotient_of \<bar>x\<bar>; d = bitlen p - bitlen q
      in if 2 powi d \<le> \<bar>x\<bar> then d else d - 1)"

definition ulp :: "rat \<Rightarrow> rat" where
  "ulp x = 2 powi (max (ilog2 x) (- 1022) - 52)"

definition nearest :: "rat \<Rightarrow> rat" where
  "nearest x = of_int (round_half_even (x / ulp x)) * ulp x"

definition round64 :: "rat \<Rightarrow> number" where
  "round64 x =
     (if x = 0 then Fin 0
      else if 2 ^ 1024 \<le> \<bar>nearest x\<bar> then (if 0 < x then PosInf else NegInf)
      else Fin (nearest x))"

text \<open>The comparisons \<^verbatim>\<open><=\<close> and \<^verbatim>\<open><\<close>: false as soon as one side is NaN.\<close>

fun js_le :: "number \<Rightarrow> number \<Rightarrow> bool" where
  "js_le NaN y = False"
| "js_le x NaN = False"
| "js_le NegInf y = True"
| "js_le x PosInf = True"
| "js_le PosInf y = False"
| "js_le x NegInf = False"
| "js_le (Fin a) (Fin b) = (a \<le> b)"

fun js_less :: "number \<Rightarrow> number \<Rightarrow> bool" where
  "js_less NaN y = False"
| "js_less x NaN = False"
| "js_less x NegInf = False"
| "js_less NegInf y = True"
| "js_less PosInf y = False"
| "js_less x PosInf = True"
| "js_less (Fin a) (Fin b) = (a < b)"

text \<open>The operator \<^verbatim>\<open>+\<close> on two numbers.\<close>

fun js_add :: "number \<Rightarrow> number \<Rightarrow> number" where
  "js_add NaN y = NaN"
| "js_add x NaN = NaN"
| "js_add PosInf NegInf = NaN"
| "js_add NegInf PosInf = NaN"
| "js_add PosInf y = PosInf"
| "js_add x PosInf = PosInf"
| "js_add NegInf y = NegInf"
| "js_add x NegInf = NegInf"
| "js_add (Fin a) (Fin b) = round64 (a + b)"

text \<open>
  The operator \<^verbatim>\<open>/\<close> with an array length on the right, as in
  \<^verbatim>\<open>historicalData.reduce(...) / historicalData.length\<close>. A length is a
  non-negative integer below \<open>2 ^ 32\<close>, a binary64 value; a length of 0 is the
  positive zero.
\<close>

fun divide_by_length :: "number \<Rightarrow> nat \<Rightarrow> number" where
  "divide_by_length NaN n = NaN"
| "divide_by_length PosInf n = PosInf"
| "divide_by_length NegInf n = NegInf"
| "divide_by_length (Fin a) n =
     (if n = 0 then (if a = 0 then NaN else if 0 < a then PosInf else NegInf)
      else round64 (a / of_nat n))"

text \<open>
  \<^verbatim>\<open>Math.max\<close> and \<^verbatim>\<open>Math.min\<close> on an argument list: NaN as soon as an
  argument is NaN, the infinity they start from when there is no argument.
\<close>

fun max_loop :: "number \<Rightarrow> number list \<Rightarrow> number" where
  "max_loop highest [] = highest"
| "max_loop highest (x # xs) =
     (if x = NaN then NaN else max_loop (if js_less highest x then x else highest) xs)"

definition Math_max :: "number list \<Rightarrow> number" where
  "Math_max xs = max_loop NegInf xs"

fun min_loop :: "number \<Rightarrow> number list \<Rightarrow> number" where
  "min_loop lowest [] = lowest"
| "min_loop lowest (x # xs) =
     (if x = NaN then NaN else min_loop (if js_less x lowest then x else lowest) xs)"

definition Math_min :: "number list \<Rightarrow> number" where
  "Math_min xs = min_loop PosInf xs"

section \<open>The chart\<close>

text \<open>
  \<^verbatim>\<open>LineChart\<close> returns a placeholder for an empty series and otherwise sorts a
  copy of the series with the comparator
  \<^verbatim>\<open>(a, b) => new Date(a.timestamp).getTime() - new Date(b.timestamp).getTime()\<close>.
  \<^verbatim>\<open>new Date(s).getTime()\<close> belongs to the platform and is a parameter: an integral
  number of milliseconds, or NaN (\<^const>\<open>None\<close>) for a string that is not a date. The
  difference of two time values has the sign of the exact difference, and the sign is
  all that sorting reads; with a NaN on either side the comparator gives NaN.
\<close>

definition by_timestamp :: "(string \<Rightarrow> int option) \<Rightarrow> historical \<Rightarrow> historical \<Rightarrow> int option" where
  "by_timestamp Date_getTime a b =
     (case (Date_getTime (timestamp a), Date_getTime (timestamp b)) of
        (Some ta, Some tb) \<Rightarrow> Some (ta - tb)
      | _ \<Rightarrow> None)"

text \<open>
  \<^verbatim>\<open>Array.prototype.sort\<close> reads a comparator's NaN as 0 and is stable. With a
  comparator that orders the elements consistently its result is fixed by the language:
  the elements in ascending order, equal ones in their original order. It is modelled by
  stable insertion from the right; \<open>sortedData_sort_key\<close> below shows that this is that
  order whenever every timestamp is a date.
\<close>

definition SortCompare :: "('a \<Rightarrow> 'a \<Rightarrow> int option) \<Rightarrow> 'a \<Rightarrow> 'a \<Rightarrow> int" where
  "SortCompare comparefn x y = (case comparefn x y of None \<Rightarrow> 0 | Some v \<Rightarrow> v)"

fun insert_by :: "('a \<Rightarrow> 'a \<Rightarrow> int option) \<Rightarrow> 'a \<Rightarrow> 'a list \<Rightarrow> 'a list" where
  "insert_by comparefn x [] = [x]"
| "insert_by comparefn x (y # ys) =
     (if SortCompare comparefn x y \<le> 0 then x # y # ys else y # insert_by comparefn x ys)"

definition Array_sort :: "('a \<Rightarrow> 'a \<Rightarrow> int option) \<Rightarrow> 'a list \<Rightarrow> 'a list" where
  "Array_sort comparefn xs = foldr (insert_by comparefn) xs []"

definition sortedData :: "(string \<Rightarrow> int option) \<Rightarrow> historical list \<Rightarrow> historical list" where
  "sortedData Date_getTime series = Array_sort (by_timestamp Date_getTime) series"

text \<open>Two neighbours are in order when the comparator does not put the second first.\<close>

definition in_order :: "(string \<Rightarrow> int option) \<Rightarrow> historical \<Rightarrow> historical \<Rightarrow> bool" where
  "in_order Date_getTime a b = (SortCompare (by_timestamp Date_getTime) a b \<le> 0)"

section \<open>The daily summary\<close>

text \<open>
  The render function is modelled on a series cell whose value is a series, the one that
  \<open>readings\<close> gives. For each of the two columns the summary block computes three
  numbers: the highest value, the lowest value, and the running sum of
  \<^verbatim>\<open>reduce\<close> divided by the length.
\<close>

definition reduce_sum :: "(historical \<Rightarrow> number) \<Rightarrow> historical list \<Rightarrow> number" where
  "reduce_sum f series = foldl (\<lambda>sum d. js_add sum (f d)) (Fin 0) series"

record 'a stats =
  Highest :: 'a
  Lowest :: 'a
  Average :: 'a

definition column :: "(historical \<Rightarrow> number) \<Rightarrow> historical list \<Rightarrow> number stats" where
  "column f series =
     \<lparr>Highest = Math_max (map f series),
      Lowest = Math_min (map f series),
      Average = divide_by_length (reduce_sum f series) (length series)\<rparr>"

text \<open>
  Each of the six numbers is shown through \<^verbatim>\<open>Number.prototype.toFixed\<close>. For a
  finite number below \<open>10 ^ 21\<close> in absolute value the result is a sign, which is
  \<^verbatim>\<open>-\<close> when the number is below zero, and the digits of the integer \<open>n\<close> for which
  \<open>n / 10 ^ fractionDigits\<close> is nearest to the absolute value, the larger one of two
  that are equally near; \<open>Fixed\<close> holds the sign, \<open>n\<close> and the number of fraction
  digits. For every other number the result is that of \<^verbatim>\<open>toString\<close>, which
  denotes the number itself. The component asks for 1 and for 2 fraction digits, which
  are in the range that \<^verbatim>\<open>toFixed\<close> accepts.
\<close>

datatype shown = Fixed bool nat nat | ToString number

definition toFixed :: "nat \<Rightarrow> number \<Rightarrow> shown" where
  "toFixed fractionDigits x =
     (case x of
        Fin q \<Rightarrow>
          (if 10 ^ 21 \<le> \<bar>q\<bar> then ToString x
           else Fixed (q < 0) (nat \<lfloor>\<bar>q\<bar> * 10 ^ fractionDigits + 1 / 2\<rfloor>) fractionDigits)
      | _ \<Rightarrow> ToString x)"

text \<open>
  The text of a \<open>Fixed\<close> result: the digits of \<open>n\<close>, filled with zeros on the left up
  to one digit more than the fraction digits, with the point before the last
  \<open>fractionDigits\<close> of them, after the sign.
\<close>

definition fixed_text :: "bool \<Rightarrow> nat \<Rightarrow> nat \<Rightarrow> string" where
  "fixed_text negative n fractionDigits =
     (let m = nat_toString n;
          z = (if length m \<le> fractionDigits
               then replicate (fractionDigits + 1 - length m) CHR ''0'' @ m else m);
          k = length z
      in (if negative then ''-'' else []) @
         (if fractionDigits = 0 then z
          else take (k - fractionDigits) z @ ''.'' @ drop (k - fractionDigits) z))"

text \<open>The number a shown value denotes, and the order of shown values by that number.\<close>

fun shown_value :: "shown \<Rightarrow> number" where
  "shown_value (Fixed negative n fractionDigits) =
     Fin ((if negative then - 1 else 1) * of_nat n / 10 ^ fractionDigits)"
| "shown_value (ToString x) = x"

definition shown_le :: "shown \<Rightarrow> shown \<Rightarrow> bool" where
  "shown_le a b = js_le (shown_value a) (shown_value b)"

text \<open>
  The summary block, guarded by \<^verbatim>\<open>historicalData.length > 0 &&\<close>: the
  temperatures are shown with one fraction digit; the highest and the lowest humidity
  with two, the average humidity with one.
\<close>

definition Daily_Summary :: "historical list \<Rightarrow> (shown stats \<times> shown stats) option" where
  "Daily_Summary series =
     (if length series > 0 then
        Some (\<lparr>Highest = toFixed 1 (Highest (column temperature series)),
               Lowest = toFixed 1 (Lowest (column temperature series)),
               Average = toFixed 1 (Average (column temperature series))\<rparr>,
              \<lparr>Highest = toFixed 2 (Highest (column humidity series)),
               Lowest = toFixed 2 (Lowest (column humidity series)),
               Average = toFixed 1 (Average (column humidity series))\<rparr>)
      else None)"

text \<open>
  The readings of a column are the finite binary64 values \<open>qs\<close>, and the running sum of
  \<^verbatim>\<open>reduce\<close> was computed without rounding.
\<close>

definition exact_column :: "(historical \<Rightarrow> number) \<Rightarrow> historical list \<Rightarrow> rat list \<Rightarrow> bool" where
  "exact_column f series qs =
     (map f series = map Fin qs \<and> list_all (\<lambda>q. round64 q = Fin q) qs \<and>
      reduce_sum f series = Fin (sum_list qs))"

section \<open>Example data\<close>

text \<open>
  The values of \<^verbatim>\<open>JSON.parse\<close> on the payloads of the examples below, to put in
  place of the parameter there. Every other text is rejected, which is what
  \<^verbatim>\<open>JSON.parse\<close> does with the malformed payload of the examples; it is not a JSON
  decoder.
\<close>

definition sample_JSON_parse :: "string \<Rightarrow> exn + json" where
  \<open>sample_JSON_parse raw =
     (if raw = ''{"temperature":200,"humidity":500}'' then
        Inr (JObj [(''temperature'', JNum (Fin 200)), (''humidity'', JNum (Fin 500))])
      else if raw = ''{"temperature":210,"humidity":480}'' then
        Inr (JObj [(''temperature'', JNum (Fin 210)), (''humidity'', JNum (Fin 480))])
      else if raw = ''5'' then Inr (JNum (Fin 5))
      else if raw = ''null'' then Inr JNull
      else Inl (SyntaxError ''Unexpected token''))\<close>

definition sample_day :: date where
  "sample_day = \<lparr>getDate = 7, getMonth = 2, getFullYear = 2024\<rparr>"

text \<open>
  The times of the example timestamps, to put in place of
  \<^verbatim>\<open>new Date(s).getTime()\<close> in the examples. Every other string counts as no date
  here.
\<close>

definition sample_getTime :: "string \<Rightarrow> int option" where
  "sample_getTime s =
     (if s = ''2024-03-07T09:00:00Z'' then Some 1709802000000
      else if s = ''2024-03-07T10:00:00Z'' then Some 1709805600000
      else if s = ''2024-03-07T11:30:00Z'' then Some 1709811000000
      else None)"

definition sample_series :: "historical list" where
  "sample_series =
     [\<lparr>timestamp = ''2024-03-07T10:00:00Z'', temperature = Fin 210, humidity = Fin 480\<rparr>,
      \<lparr>timestamp = ''2024-03-07T11:30:00Z'', temperature = Fin 205, humidity = Fin 490\<rparr>,
      \<lparr>timestamp = ''2024-03-07T09:00:00Z'', temperature = Fin 200, humidity = Fin 500\<rparr>]"

text \<open>
  A series of three readings of 0.1, as binary64 values (see \<open>tenth_literal\<close> below).
\<close>

definition tenths_series :: "historical list" where
  "tenths_series =
     [\<lparr>timestamp = ''2024-03-07T09:00:00Z'',
       temperature = Fin (3602879701896397 / 36028797018963968),
       humidity = Fin (3602879701896397 / 36028797018963968)\<rparr>,
      \<lparr>timestamp = ''2024-03-07T10:00:00Z'',
       temperature = Fin (3602879701896397 / 36028797018963968),
       humidity = Fin (3602879701896397 / 36028797018963968)\<rparr>,
      \<lparr>timestamp = ''2024-03-07T11:30:00Z'',
       temperature = Fin (3602879701896397 / 36028797018963968),
       humidity = Fin (3602879701896397 / 36028797018963968)\<rparr>]"

text \<open>
  A series of six readings, each with temperature 15.45 and humidity 50, as binary64
  values (see \<open>literal_15_45\<close> below).
\<close>

definition steady_series :: "historical list" where
  "steady_series =
     map (\<lambda>t. \<lparr>timestamp = t, temperature = Fin (4348788390179635 / 281474976710656),
               humidity = Fin 50\<rparr>)
       [''2024-03-07T09:00:00Z'', ''2024-03-07T10:00:00Z'', ''2024-03-07T11:00:00Z'',
        ''2024-03-07T12:00:00Z'', ''2024-03-07T13:00:00Z'', ''2024-03-07T14:00:00Z'']"

text \<open>A series of one reading with humidity 25.15 (see \<open>literal_25_15\<close> below).\<close>

definition single_series :: "historical list" where
  "single_series =
     [\<lparr>timestamp = ''2024-03-07T09:00:00Z'', temperature = Fin 21,
       humidity = Fin (3539547832136499 / 140737488355328)\<rparr>]"

text \<open>Bodies of responses that report an error instead of carrying data.\<close>

definition not_found_body :: json where
  "not_found_body = JObj [(''error'', JStr ''Not Found'')]"

definition bad_request_body :: json where
  "bad_request_body = JObj [(''error'', JStr ''Bad Request'')]"

section \<open>Ingestion\<close>

text \<open>
  C1. A payload on the subscribed topic that decodes to a value of the Reading shape
  makes the handler return normally with the latest reading replaced by exactly the
  decoded value and the time of the last update set to the clock reading; no other cell
  changes. After any non-empty sequence of such messages the state is the one that the
  last message alone would have produced: the single latest-reading cell holds the value
  of the last message and nothing of the earlier ones.
\<close>

theorem C1_message_replaces_reading:
  "(JSON_parse rawMessage = Inr v \<and> is_Reading v \<longrightarrow>
      on_message JSON_parse now MQTT_TOPIC rawMessage st =
        Inr (st\<lparr>realTimeData := v, lastUpdate := Some now\<rparr>, [])) \<and>
   (ms \<noteq> [] \<and>
    (\<forall>m \<in> set ms. fst (snd m) = MQTT_TOPIC \<and>
       (\<exists>w. JSON_parse (snd (snd m)) = Inr w \<and> is_Reading w)) \<longrightarrow>
      (\<exists>w. JSON_parse (snd (snd (last ms))) = Inr w \<and> is_Reading w \<and>
         deliver JSON_parse ms st =
           Inr (st\<lparr>realTimeData := w, lastUpdate := Some (fst (last ms))\<rparr>)))"
proof (intro conjI impI)
  assume "JSON_parse rawMessage = Inr v \<and> is_Reading v"
  then show "on_message JSON_parse now MQTT_TOPIC rawMessage st =
      Inr (st\<lparr>realTimeData := v, lastUpdate := Some now\<rparr>, [])"
    by (simp add: on_message_def)
next
  assume "ms \<noteq> [] \<and>
    (\<forall>m \<in> set ms. fst (snd m) = MQTT_TOPIC \<and>
       (\<exists>w. JSON_parse (snd (snd m)) = Inr w \<and> is_Reading w))"
  then show "\<exists>w. JSON_parse (snd (snd (last ms))) = Inr w \<and> is_Reading w \<and>
      deliver JSON_parse ms st =
        Inr (st\<lparr>realTimeData := w, lastUpdate := Some (fst (last ms))\<rparr>)"
  proof (induction ms arbitrary: st)
    case Nil
    then show ?case by simp
  next
    case (Cons m ms)
    obtain now topic raw where m: "m = (now, topic, raw)"
      by (cases m) auto
    from Cons.prems m obtain w where w: "topic = MQTT_TOPIC" "JSON_parse raw = Inr w" "is_Reading w"
      by auto
    show ?case
    proof (cases "ms = []")
      case True
      with m w show ?thesis
        by (simp add: on_message_def)
    next
      case False
      with Cons.prems have "ms \<noteq> [] \<and>
        (\<forall>m \<in> set ms. fst (snd m) = MQTT_TOPIC \<and>
           (\<exists>w. JSON_parse (snd (snd m)) = Inr w \<and> is_Reading w))"
        by simp
      from Cons.IH [OF this, of "st\<lparr>realTimeData := w, lastUpdate := Some now\<rparr>"]
      show ?thesis
        using False m w by (simp add: on_message_def)
    qed
  qed
qed

theorem C1_message_replaces_reading_witness:
  \<open>on_message sample_JSON_parse ''10:00:01'' ''sensor/data''
       ''{"temperature":200,"humidity":500}'' (initial_state sample_day) =
     Inr ((initial_state sample_day)
            \<lparr>realTimeData := JObj [(''temperature'', JNum (Fin 200)), (''humidity'', JNum (Fin 500))],
             lastUpdate := Some ''10:00:01''\<rparr>, []) \<and>
   deliver sample_JSON_parse
       [(''10:00:01'', ''sensor/data'', ''{"temperature":200,"humidity":500}''),
        (''10:00:02'', ''sensor/data'', ''{"temperature":210,"humidity":480}'')]
       (initial_state sample_day) =
     Inr ((initial_state sample_day)
            \<lparr>realTimeData := JObj [(''temperature'', JNum (Fin 210)), (''humidity'', JNum (Fin 480))],
             lastUpdate := Some ''10:00:02''\<rparr>)\<close>
  using C1_message_replaces_reading [where JSON_parse = sample_JSON_parse
      and rawMessage = \<open>''{"temperature":200,"humidity":500}''\<close>
      and v = "JObj [(''temperature'', JNum (Fin 200)), (''humidity'', JNum (Fin 500))]"
      and ms = \<open>[(''10:00:01'', ''sensor/data'', ''{"temperature":200,"humidity":500}''),
        (''10:00:02'', ''sensor/data'', ''{"temperature":210,"humidity":480}'')]\<close>
      and now = "''10:00:01''" and st = "initial_state sample_day"]
  by (simp add: sample_JSON_parse_def MQTT_TOPIC_def on_message_def)

text \<open>
  C2. A payload on the subscribed topic that fails to decode makes the handler return
  normally (the exception of \<^verbatim>\<open>JSON.parse\<close> is caught and logged) with the state as
  it was: the latest reading, the time of the last update and the connection state,
  like every other cell, are unchanged.
\<close>

theorem C2_malformed_payload_ignored:
  "JSON_parse rawMessage = Inl e \<Longrightarrow>
     on_message JSON_parse now MQTT_TOPIC rawMessage st =
       Inr (st, [ConsoleError ''Error parsing MQTT message:''])"
  by (simp add: on_message_def)

theorem C2_malformed_payload_ignored_witness:
  \<open>sample_JSON_parse ''{temperature:'' = Inl (SyntaxError ''Unexpected token'') \<and>
   on_message sample_JSON_parse ''10:00:03'' ''sensor/data'' ''{temperature:''
       ((initial_state sample_day)\<lparr>realTimeData := JNum (Fin 5), mqttConnected := True\<rparr>) =
     Inr ((initial_state sample_day)\<lparr>realTimeData := JNum (Fin 5), mqttConnected := True\<rparr>,
          [ConsoleError ''Error parsing MQTT message:''])\<close>
  using C2_malformed_payload_ignored [where JSON_parse = sample_JSON_parse
      and rawMessage = "''{temperature:''" and e = "SyntaxError ''Unexpected token''"
      and now = "''10:00:03''"
      and st = "(initial_state sample_day)\<lparr>realTimeData := JNum (Fin 5), mqttConnected := True\<rparr>"]
  by (simp add: sample_JSON_parse_def MQTT_TOPIC_def)

text \<open>
  C10. The handler checks nothing about the decoded value: whenever the payload decodes,
  also to a value that is not of the Reading shape, the latest reading becomes that
  value and the time of the last update is set. The write variant does the same, and
  posts the value.
\<close>

theorem C10_no_shape_validation:
  "JSON_parse rawMessage = Inr v \<Longrightarrow> \<not> is_Reading v \<Longrightarrow>
     on_message JSON_parse now MQTT_TOPIC rawMessage st =
       Inr (st\<lparr>realTimeData := v, lastUpdate := Some now\<rparr>, []) \<and>
     on_message_write JSON_parse now MQTT_TOPIC rawMessage st =
       Inr (st\<lparr>realTimeData := v, lastUpdate := Some now\<rparr>, [HttpPost v])"
  by (simp add: on_message_def on_message_write_def)

theorem C10_no_shape_validation_witness:
  "sample_JSON_parse ''5'' = Inr (JNum (Fin 5)) \<and> \<not> is_Reading (JNum (Fin 5)) \<and>
   on_message sample_JSON_parse ''10:00:04'' ''sensor/data'' ''5'' (initial_state sample_day) =
     Inr ((initial_state sample_day)
            \<lparr>realTimeData := JNum (Fin 5), lastUpdate := Some ''10:00:04''\<rparr>, []) \<and>
   on_message_write sample_JSON_parse ''10:00:04'' ''sensor/data'' ''5'' (initial_state sample_day) =
     Inr ((initial_state sample_day)
            \<lparr>realTimeData := JNum (Fin 5), lastUpdate := Some ''10:00:04''\<rparr>,
          [HttpPost (JNum (Fin 5))])"
  using C10_no_shape_validation [where JSON_parse = sample_JSON_parse
      and rawMessage = "''5''" and v = "JNum (Fin 5)" and now = "''10:00:04''"
      and st = "initial_state sample_day"]
  by (simp add: sample_JSON_parse_def MQTT_TOPIC_def)

section \<open>Storing readings (write variant)\<close>

text \<open>
  C9, with the success and the failure of the write read as its promise chain resolving
  and rejecting. In the write variant a payload that decodes makes the handler issue one
  POST whose body is the decoded value, after the live update. When a response arrives
  whose body is JSON, whatever the status of the response, the decoded body is appended
  to the series, the series cell holding an array. When no response arrives, or the body
  of the response is not JSON, the state is unchanged. While the series cell holds an
  array the callback returns normally, however the chain settles, and whenever it
  returns normally the latest reading and the time of the last update of the moment are
  kept.
\<close>

theorem C9_write_variant_settled:
  "(JSON_parse message = Inr v \<longrightarrow>
      on_message_write JSON_parse now MQTT_TOPIC message st =
        Inr (st\<lparr>realTimeData := v, lastUpdate := Some now\<rparr>, [HttpPost v])) \<and>
   (historicalData st' = JArr js \<longrightarrow>
      write_settled (Inr \<lparr>status = code, body_json = Inr savedData\<rparr>) st' =
        Inr (st'\<lparr>historicalData := JArr (js @ [savedData])\<rparr>, [ConsoleLog ''Data stored:'']) \<and>
      (\<exists>st'' fx. write_settled settled st' = Inr (st'', fx))) \<and>
   write_settled (Inl err) st' = Inr (st', [ConsoleError ''Error storing data:'']) \<and>
   write_settled (Inr \<lparr>status = code, body_json = Inl err\<rparr>) st' =
     Inr (st', [ConsoleError ''Error storing data:'']) \<and>
   (\<forall>st'' fx. write_settled settled st' = Inr (st'', fx) \<longrightarrow>
      realTimeData st'' = realTimeData st' \<and> lastUpdate st'' = lastUpdate st')"
  by (auto simp: on_message_write_def write_settled_def split: sum.splits)

theorem C9_write_variant_settled_witness:
  \<open>on_message_write sample_JSON_parse ''10:00:01'' ''sensor/data''
       ''{"temperature":200,"humidity":500}'' (initial_state sample_day) =
     Inr ((initial_state sample_day)
            \<lparr>realTimeData := JObj [(''temperature'', JNum (Fin 200)), (''humidity'', JNum (Fin 500))],
             lastUpdate := Some ''10:00:01''\<rparr>,
          [HttpPost (JObj [(''temperature'', JNum (Fin 200)), (''humidity'', JNum (Fin 500))])]) \<and>
   historicalData ((initial_state sample_day)\<lparr>realTimeData := JNum (Fin 5)\<rparr>) = JArr [] \<and>
   write_settled
       (Inr \<lparr>status = 201,
          body_json = Inr (reading_json \<lparr>timestamp = ''2024-03-07T10:00:01Z'',
            temperature = Fin 200, humidity = Fin 500\<rparr>)\<rparr>)
       ((initial_state sample_day)\<lparr>realTimeData := JNum (Fin 5)\<rparr>) =
     Inr ((initial_state sample_day)
            \<lparr>realTimeData := JNum (Fin 5),
             historicalData := JArr [reading_json \<lparr>timestamp = ''2024-03-07T10:00:01Z'',
               temperature = Fin 200, humidity = Fin 500\<rparr>]\<rparr>,
          [ConsoleLog ''Data stored:'']) \<and>
   write_settled (Inl (TypeError ''Failed to fetch''))
       ((initial_state sample_day)\<lparr>realTimeData := JNum (Fin 5)\<rparr>) =
     Inr ((initial_state sample_day)\<lparr>realTimeData := JNum (Fin 5)\<rparr>,
          [ConsoleError ''Error storing data:'']) \<and>
   write_settled (Inr \<lparr>status = 201, body_json = Inl (TypeError ''Failed to fetch'')\<rparr>)
       ((initial_state sample_day)\<lparr>realTimeData := JNum (Fin 5)\<rparr>) =
     Inr ((initial_state sample_day)\<lparr>realTimeData := JNum (Fin 5)\<rparr>,
          [ConsoleError ''Error storing data:''])\<close>
  using C9_write_variant_settled [where JSON_parse = sample_JSON_parse
      and message = \<open>''{"temperature":200,"humidity":500}''\<close>
      and v = "JObj [(''temperature'', JNum (Fin 200)), (''humidity'', JNum (Fin 500))]"
      and now = "''10:00:01''" and st = "initial_state sample_day"
      and st' = "(initial_state sample_day)\<lparr>realTimeData := JNum (Fin 5)\<rparr>"
      and js = "[]" and code = 201 and savedData = "reading_json \<lparr>timestamp = ''2024-03-07T10:00:01Z'',
        temperature = Fin 200, humidity = Fin 500\<rparr>"
      and err = "TypeError ''Failed to fetch''"]
  by (simp add: sample_JSON_parse_def MQTT_TOPIC_def initial_state_def)

text \<open>
  A write that fails at the store: the POST is answered with status 400 and a JSON body
  that reports the error. The chain resolves, and the report is appended to the series
  as if it were a stored reading.
\<close>

theorem C9_error_status_counterexample:
  "\<not> ok \<lparr>status = 400, body_json = Inr bad_request_body\<rparr> \<and>
   write_settled (Inr \<lparr>status = 400, body_json = Inr bad_request_body\<rparr>)
       ((initial_state sample_day)\<lparr>historicalData := series_json sample_series\<rparr>) =
     Inr ((initial_state sample_day)
            \<lparr>historicalData := JArr (map reading_json sample_series @ [bad_request_body])\<rparr>,
          [ConsoleLog ''Data stored:'']) \<and>
   JArr (map reading_json sample_series @ [bad_request_body]) \<noteq> series_json sample_series \<and>
   readings (JArr (map reading_json sample_series @ [bad_request_body])) = None"
  by (simp add: ok_def write_settled_def series_json_def initial_state_def
      bad_request_body_def sample_series_def reading_json_def)

section \<open>Connection errors\<close>

text \<open>
  C8. After a successful connect the state is Connected; when the transport then reports
  an error, the error handler returns normally, the connection state becomes
  Disconnected, and the latest reading, the historical series, the loading flag, the
  selected date and the time of the last update are as they were.
\<close>

theorem C8_error_after_connect:
  "\<exists>st1 fx1 st2 fx2.
     on_connect st = Inr (st1, fx1) \<and> mqttConnected st1 \<and> Subscribe MQTT_TOPIC \<in> set fx1 \<and>
     on_error st1 = Inr (st2, fx2) \<and> \<not> mqttConnected st2 \<and>
     realTimeData st2 = realTimeData st \<and> historicalData st2 = historicalData st \<and>
     isLoading st2 = isLoading st \<and> lastUpdate st2 = lastUpdate st \<and>
     selectedDate st2 = selectedDate st \<and>
     st2 = st1\<lparr>mqttConnected := False\<rparr>"
  by (simp add: on_connect_def on_error_def)

section \<open>The format of the date\<close>

text \<open>
  From the year 10 on, every date of the calendar is formatted as two digits of the day,
  two of the month and the last two of the year.
\<close>

lemma nat_toString_one_digit: "n < 10 \<Longrightarrow> nat_toString n = [digit_char n]"
  by (subst nat_toString.simps) simp

lemma nat_toString_more_digits:
  "10 \<le> n \<Longrightarrow> nat_toString n = nat_toString (n div 10) @ [digit_char (n mod 10)]"
  by (subst nat_toString.simps) simp

lemma nat_toString_last:
  "nat_toString n \<noteq> [] \<and> last (nat_toString n) = digit_char (n mod 10)"
  by (cases "n < 10") (simp_all add: nat_toString_one_digit nat_toString_more_digits)

lemma slice_last_two: "slice (- 2) (s @ [a, b]) = [a, b]"
  by (simp add: slice_def)

lemma nat_toString_last_two:
  assumes "10 \<le> n"
  shows "slice (- 2) (nat_toString n) = [digit_char (n div 10 mod 10), digit_char (n mod 10)]"
proof -
  from nat_toString_last [of "n div 10"]
  have "nat_toString (n div 10) = butlast (nat_toString (n div 10)) @ [digit_char (n div 10 mod 10)]"
    by (metis append_butlast_last_id)
  then have "nat_toString n =
      butlast (nat_toString (n div 10)) @ [digit_char (n div 10 mod 10), digit_char (n mod 10)]"
    using assms by (simp add: nat_toString_more_digits)
  then show ?thesis
    by (simp only: slice_last_two)
qed

lemma padStart_two_digits:
  assumes "n < 100"
  shows "padStart 2 ''0'' (Number_toString (int n)) = [digit_char (n div 10), digit_char (n mod 10)]"
proof (cases "n < 10")
  case True
  then show ?thesis
    by (simp add: padStart_def Number_toString_def nat_toString_one_digit digit_char_def)
next
  case False
  with assms have "n div 10 < 10" by simp
  with False show ?thesis
    by (simp add: padStart_def Number_toString_def nat_toString_more_digits nat_toString_one_digit)
qed

lemma formattedDate_DD_MM_YY:
  assumes "getDate d < 100" and "getMonth d < 99" and "10 \<le> getFullYear d"
  shows "formattedDate d =
    [digit_char (getDate d div 10), digit_char (getDate d mod 10), CHR ''_'',
     digit_char ((getMonth d + 1) div 10), digit_char ((getMonth d + 1) mod 10), CHR ''_'',
     digit_char (nat (getFullYear d) div 10 mod 10), digit_char (nat (getFullYear d) mod 10)]"
proof -
  have m: "int (getMonth d) + 1 = int (getMonth d + 1)" by simp
  from assms(3) have y: "slice (- 2) (Number_toString (getFullYear d)) =
      [digit_char (nat (getFullYear d) div 10 mod 10), digit_char (nat (getFullYear d) mod 10)]"
    by (simp add: Number_toString_def nat_toString_last_two)
  from assms(1) have dd: "padStart 2 ''0'' (Number_toString (int (getDate d))) =
      [digit_char (getDate d div 10), digit_char (getDate d mod 10)]"
    by (rule padStart_two_digits)
  from assms(2) have "getMonth d + 1 < 100" by simp
  then have mm: "padStart 2 ''0'' (Number_toString (int (getMonth d + 1))) =
      [digit_char ((getMonth d + 1) div 10), digit_char ((getMonth d + 1) mod 10)]"
    by (rule padStart_two_digits)
  show ?thesis
    unfolding formattedDate_def Let_def m y dd mm by simp
qed

lemma formattedDate_2024_03_07:
  "formattedDate \<lparr>getDate = 7, getMonth = 2, getFullYear = 2024\<rparr> = ''07_03_24''"
  by (simp add: formattedDate_def padStart_def slice_def Number_toString_def
      nat_toString.simps digit_char_def)

text \<open>
  C4. The date 2024-03-07 (the month getter counts from 0) is formatted as
  \<^verbatim>\<open>07_03_24\<close>. The day and the month are padded to two digits, but the year is
  only cut to its last two characters and never padded: the year 5 gives the
  one-character year field of \<^verbatim>\<open>07_03_5\<close>, which is not of the form DD_MM_YY.
\<close>

theorem C4_one_digit_year:
  "formattedDate \<lparr>getDate = 7, getMonth = 2, getFullYear = 5\<rparr> = ''07_03_5''"
  by (simp add: formattedDate_def padStart_def slice_def Number_toString_def
      nat_toString.simps digit_char_def)

section \<open>The loading flag\<close>

text \<open>
  The request counter and the loading flag move together: one step keeps
  ``the flag is set exactly when one request is pending''.
\<close>

lemma step_pending_isLoading:
  assumes "step JSON_parse e s = Some s'"
    and "pending s = (if isLoading (app s) then 1 else 0)"
  shows "pending s' = (if isLoading (app s') then 1 else 0)"
  using assms
  by (cases e)
    (auto simp: commit_def on_connect_def on_message_def on_error_def fetchData_def
      fetch_settled_def split: if_splits sum.splits)

lemma run_pending_isLoading:
  assumes "run JSON_parse es s = Some s'"
    and "pending s = (if isLoading (app s) then 1 else 0)"
  shows "pending s' = (if isLoading (app s') then 1 else 0)"
  using assms
proof (induction es arbitrary: s)
  case Nil
  then show ?case by simp
next
  case (Cons e es)
  from Cons.prems(1) obtain s1 where
    s1: "step JSON_parse e s = Some s1" "run JSON_parse es s1 = Some s'"
    by (auto split: option.splits)
  from step_pending_isLoading [OF s1(1) Cons.prems(2)] Cons.IH [OF s1(2)]
  show ?case by simp
qed

text \<open>
  C5, with the success and the failure of the request read as its promise chain
  resolving and rejecting. In every state the component can reach from its mount,
  whatever events came before: a request is pending exactly when the loading flag is
  set, so the flag is true from the click that issues the request until the request
  settles. A click, possible when the flag is clear, sets the flag, issues one request
  and leaves the series alone. When a response to the pending request arrives whose body
  is JSON, whatever the status of the response, the flag is cleared and the series is
  replaced by the decoded body. When the body of the response is not JSON, or when no
  response arrives, the flag is cleared and the series is what it was.
\<close>

theorem C5_loading_flag_and_settled_series:
  assumes "run JSON_parse es (mounted today) = Some s"
  shows "(0 < pending s \<longleftrightarrow> isLoading (app s)) \<and>
    (\<not> isLoading (app s) \<longrightarrow>
       (\<exists>s'. step JSON_parse ClickFetch s = Some s' \<and> pending s' = 1 \<and> isLoading (app s') \<and>
          historicalData (app s') = historicalData (app s))) \<and>
    (0 < pending s \<longrightarrow>
       (\<exists>s'. step JSON_parse (FetchSettled (Inr \<lparr>status = code, body_json = Inr data\<rparr>)) s =
            Some s' \<and>
          pending s' = 0 \<and> \<not> isLoading (app s') \<and> historicalData (app s') = data) \<and>
       (\<exists>s'. step JSON_parse (FetchSettled (Inr \<lparr>status = code, body_json = Inl err\<rparr>)) s =
            Some s' \<and>
          pending s' = 0 \<and> \<not> isLoading (app s') \<and>
          historicalData (app s') = historicalData (app s)) \<and>
       (\<exists>s'. step JSON_parse (FetchSettled (Inl err)) s = Some s' \<and> pending s' = 0 \<and>
          \<not> isLoading (app s') \<and> historicalData (app s') = historicalData (app s)))"
proof -
  have "pending (mounted today) = (if isLoading (app (mounted today)) then 1 else 0)"
    by (simp add: mounted_def initial_state_def)
  from run_pending_isLoading [OF assms this]
  have inv: "pending s = (if isLoading (app s) then 1 else 0)" .
  then show ?thesis
    by (auto simp: commit_def fetchData_def fetch_settled_def split: if_splits)
qed

theorem C5_loading_flag_and_settled_series_witness:
  "run sample_JSON_parse [Connect, ClickFetch]
     (mounted sample_day) =
     Some \<lparr>app = (initial_state sample_day)
                  \<lparr>mqttConnected := True, isLoading := True\<rparr>, pending = 1\<rparr> \<and>
   (\<exists>s'. step sample_JSON_parse
           (FetchSettled (Inr \<lparr>status = 200, body_json = Inr (series_json sample_series)\<rparr>))
           \<lparr>app = (initial_state sample_day)
                  \<lparr>mqttConnected := True, isLoading := True\<rparr>, pending = 1\<rparr> = Some s' \<and>
         pending s' = 0 \<and> \<not> isLoading (app s') \<and>
         historicalData (app s') = series_json sample_series) \<and>
   (\<exists>s'. step sample_JSON_parse
           (FetchSettled (Inr \<lparr>status = 200,
              body_json = Inl (SyntaxError ''Unexpected token'')\<rparr>))
           \<lparr>app = (initial_state sample_day)
                  \<lparr>mqttConnected := True, isLoading := True\<rparr>, pending = 1\<rparr> = Some s' \<and>
         pending s' = 0 \<and> \<not> isLoading (app s') \<and> historicalData (app s') = JArr []) \<and>
   (\<exists>s'. step sample_JSON_parse (FetchSettled (Inl (SyntaxError ''Unexpected token'')))
           \<lparr>app = (initial_state sample_day)
                  \<lparr>mqttConnected := True, isLoading := True\<rparr>, pending = 1\<rparr> = Some s' \<and>
         pending s' = 0 \<and> \<not> isLoading (app s') \<and> historicalData (app s') = JArr [])"
proof -
  have r: "run sample_JSON_parse [Connect, ClickFetch]
     (mounted sample_day) =
     Some \<lparr>app = (initial_state sample_day)
                  \<lparr>mqttConnected := True, isLoading := True\<rparr>, pending = 1\<rparr>"
    by (simp add: mounted_def initial_state_def commit_def on_connect_def fetchData_def)
  from C5_loading_flag_and_settled_series [OF r,
      of 200 "series_json sample_series" "SyntaxError ''Unexpected token''"] r
  show ?thesis
    by (simp add: initial_state_def)
qed

text \<open>
  A request that fails at the server. A first query is answered with status 200 and the
  sample series. A second query is answered with status 404 and a JSON body that
  reports the error: the chain resolves, and the series that was on the screen is
  replaced by the report, which is not a series.
\<close>

theorem C5_error_status_counterexample:
  "\<not> ok \<lparr>status = 404, body_json = Inr not_found_body\<rparr> \<and>
   run sample_JSON_parse
     [ClickFetch,
      FetchSettled (Inr \<lparr>status = 200, body_json = Inr (series_json sample_series)\<rparr>),
      ClickFetch]
     (mounted sample_day) =
     Some \<lparr>app = (initial_state sample_day)
                  \<lparr>historicalData := series_json sample_series, isLoading := True\<rparr>,
           pending = 1\<rparr> \<and>
   step sample_JSON_parse
     (FetchSettled (Inr \<lparr>status = 404, body_json = Inr not_found_body\<rparr>))
     \<lparr>app = (initial_state sample_day)
            \<lparr>historicalData := series_json sample_series, isLoading := True\<rparr>,
      pending = 1\<rparr> =
     Some \<lparr>app = (initial_state sample_day)\<lparr>historicalData := not_found_body\<rparr>,
           pending = 0\<rparr> \<and>
   not_found_body \<noteq> series_json sample_series \<and>
   readings (series_json sample_series) = Some sample_series \<and>
   readings not_found_body = None"
  by (simp add: ok_def mounted_def initial_state_def commit_def fetchData_def
      fetch_settled_def not_found_body_def series_json_def sample_series_def reading_json_def)

section \<open>Sorting for the chart\<close>

lemma in_order_total: "\<not> in_order G a b \<Longrightarrow> in_order G b a"
  by (auto simp: in_order_def SortCompare_def by_timestamp_def split: option.splits)

text \<open>The first element after an insertion is the new one, or the old first one.\<close>

lemma insert_by_hd:
  "insert_by (by_timestamp G) x ys \<noteq> [] \<and>
   (hd (insert_by (by_timestamp G) x ys) = x \<or>
    ys \<noteq> [] \<and> hd (insert_by (by_timestamp G) x ys) = hd ys \<and> \<not> in_order G x (hd ys))"
  by (cases ys) (auto simp: in_order_def)

lemma successively_insert_by:
  assumes "successively (in_order G) ys"
  shows "successively (in_order G) (insert_by (by_timestamp G) x ys)"
  using assms
proof (induction ys)
  case Nil
  then show ?case by simp
next
  case (Cons y ys)
  show ?case
  proof (cases "in_order G x y")
    case True
    with Cons.prems show ?thesis
      by (simp add: in_order_def)
  next
    case False
    then have yx: "in_order G y x"
      by (rule in_order_total)
    from Cons.prems have "successively (in_order G) ys"
      by (cases ys) auto
    then have IH: "successively (in_order G) (insert_by (by_timestamp G) x ys)"
      by (rule Cons.IH)
    have "in_order G y (hd (insert_by (by_timestamp G) x ys))"
      using insert_by_hd [of G x ys] yx Cons.prems by (cases ys) auto
    with IH insert_by_hd [of G x ys] False show ?thesis
      by (cases "insert_by (by_timestamp G) x ys")
        (auto simp: in_order_def successively_Cons)
  qed
qed

lemma successively_Array_sort:
  "successively (in_order G) (Array_sort (by_timestamp G) xs)"
  by (induction xs) (auto simp: Array_sort_def successively_insert_by)

text \<open>Sorting a series whose neighbours are all in order changes nothing.\<close>

lemma Array_sort_in_order:
  assumes "successively (in_order G) xs"
  shows "Array_sort (by_timestamp G) xs = xs"
  using assms
proof (induction xs)
  case Nil
  then show ?case by (simp add: Array_sort_def)
next
  case (Cons x xs)
  then have "Array_sort (by_timestamp G) xs = xs"
    by (cases xs) auto
  then have "Array_sort (by_timestamp G) (x # xs) = insert_by (by_timestamp G) x xs"
    by (simp add: Array_sort_def)
  with Cons.prems show ?case
    by (cases xs) (auto simp: in_order_def)
qed

text \<open>
  Where every timestamp is a date, the model of \<^verbatim>\<open>sort\<close> gives the stable ascending
  order of the library.
\<close>

lemma insert_by_insort_key:
  assumes "G (timestamp x) \<noteq> None" and "\<forall>y \<in> set ys. G (timestamp y) \<noteq> None"
  shows "insert_by (by_timestamp G) x ys = insort_key (\<lambda>d. the (G (timestamp d))) x ys"
  using assms by (induction ys) (auto simp: SortCompare_def by_timestamp_def)

lemma Array_sort_sort_key:
  assumes "\<forall>y \<in> set xs. G (timestamp y) \<noteq> None"
  shows "Array_sort (by_timestamp G) xs = sort_key (\<lambda>d. the (G (timestamp d))) xs"
  using assms
proof (induction xs)
  case Nil
  show ?case by (simp add: Array_sort_def)
next
  case (Cons x xs)
  then have "Array_sort (by_timestamp G) xs = sort_key (\<lambda>d. the (G (timestamp d))) xs"
    by simp
  moreover have "\<forall>y \<in> set (sort_key (\<lambda>d. the (G (timestamp d))) xs). G (timestamp y) \<noteq> None"
    using Cons.prems by simp
  ultimately show ?case
    using Cons.prems by (simp add: Array_sort_def insert_by_insort_key)
qed

lemma sortedData_sort_key:
  assumes "\<forall>y \<in> set series. Date_getTime (timestamp y) \<noteq> None"
  shows "sortedData Date_getTime series =
    sort_key (\<lambda>d. the (Date_getTime (timestamp d))) series"
  using assms by (simp add: sortedData_def Array_sort_sort_key)

text \<open>
  C7. Sorting the series by timestamp, as the chart does, is idempotent: for every
  non-empty series, sorting the sorted series gives the sorted series again.
\<close>

theorem C7_sorting_idempotent:
  assumes "series \<noteq> []"
  shows "sortedData Date_getTime (sortedData Date_getTime series) = sortedData Date_getTime series"
  by (simp add: sortedData_def Array_sort_in_order successively_Array_sort)

theorem C7_sorting_idempotent_witness:
  "sample_series \<noteq> [] \<and>
   sortedData sample_getTime sample_series =
     [\<lparr>timestamp = ''2024-03-07T09:00:00Z'', temperature = Fin 200, humidity = Fin 500\<rparr>,
      \<lparr>timestamp = ''2024-03-07T10:00:00Z'', temperature = Fin 210, humidity = Fin 480\<rparr>,
      \<lparr>timestamp = ''2024-03-07T11:30:00Z'', temperature = Fin 205, humidity = Fin 490\<rparr>] \<and>
   sortedData sample_getTime (sortedData sample_getTime sample_series) =
     [\<lparr>timestamp = ''2024-03-07T09:00:00Z'', temperature = Fin 200, humidity = Fin 500\<rparr>,
      \<lparr>timestamp = ''2024-03-07T10:00:00Z'', temperature = Fin 210, humidity = Fin 480\<rparr>,
      \<lparr>timestamp = ''2024-03-07T11:30:00Z'', temperature = Fin 205, humidity = Fin 490\<rparr>]"
proof -
  have ne: "sample_series \<noteq> []"
    by (simp add: sample_series_def)
  have once: "sortedData sample_getTime sample_series =
     [\<lparr>timestamp = ''2024-03-07T09:00:00Z'', temperature = Fin 200, humidity = Fin 500\<rparr>,
      \<lparr>timestamp = ''2024-03-07T10:00:00Z'', temperature = Fin 210, humidity = Fin 480\<rparr>,
      \<lparr>timestamp = ''2024-03-07T11:30:00Z'', temperature = Fin 205, humidity = Fin 490\<rparr>]"
    by (simp add: sample_series_def sortedData_def Array_sort_def SortCompare_def
        by_timestamp_def sample_getTime_def)
  from C7_sorting_idempotent [OF ne, of sample_getTime] ne once show ?thesis
    by simp
qed

section \<open>Rounding to binary64\<close>

text \<open>
  Rounding to the nearest integer keeps integers, is monotone, and commutes with
  negation.
\<close>

lemma round_half_even_of_int [simp]: "round_half_even (of_int k) = k"
  by (simp add: round_half_even_def)

lemma round_half_even_bounds: "\<lfloor>x\<rfloor> \<le> round_half_even x \<and> round_half_even x \<le> \<lceil>x\<rceil>"
proof -
  have "x \<noteq> of_int \<lfloor>x\<rfloor> \<Longrightarrow> \<lceil>x\<rceil> = \<lfloor>x\<rfloor> + 1"
    by (metis ceiling_altdef of_int_floor_cancel)
  moreover have "x = of_int \<lfloor>x\<rfloor> \<Longrightarrow> round_half_even x = \<lfloor>x\<rfloor>"
    by (metis round_half_even_of_int)
  ultimately show ?thesis
    by (cases "x = of_int \<lfloor>x\<rfloor>") (simp_all add: round_half_even_def Let_def)
qed

lemma round_half_even_mono:
  assumes "x \<le> y"
  shows "round_half_even x \<le> round_half_even y"
proof (cases "\<lfloor>x\<rfloor> = \<lfloor>y\<rfloor>")
  case True
  with assms show ?thesis
    by (auto simp: round_half_even_def Let_def)
next
  case False
  with assms have "\<lfloor>x\<rfloor> < \<lfloor>y\<rfloor>"
    by (simp add: floor_mono order.not_eq_order_implies_strict)
  then have "\<lceil>x\<rceil> \<le> \<lfloor>y\<rfloor>"
    by (metis ceiling_altdef zless_imp_add1_zle order.strict_implies_order of_int_floor_cancel)
  with round_half_even_bounds [of x] round_half_even_bounds [of y] show ?thesis
    by linarith
qed

lemma round_half_even_minus: "round_half_even (- x) = - round_half_even x"
proof (cases "x = of_int \<lfloor>x\<rfloor>")
  case True
  then have "round_half_even (- x) = round_half_even (of_int (- \<lfloor>x\<rfloor>))"
    by simp
  also have "\<dots> = - \<lfloor>x\<rfloor>"
    by (simp only: round_half_even_of_int)
  finally show ?thesis
    using True by (metis round_half_even_of_int)
next
  case False
  then have "\<lceil>x\<rceil> = \<lfloor>x\<rfloor> + 1"
    by (simp add: ceiling_altdef)
  then have f: "\<lfloor>- x\<rfloor> = - \<lfloor>x\<rfloor> - 1"
    unfolding ceiling_def by linarith
  have r: "0 < x - of_int \<lfloor>x\<rfloor>" "x - of_int \<lfloor>x\<rfloor> < 1"
    using False by linarith+
  show ?thesis
    using r by (auto simp: round_half_even_def Let_def f)
qed

text \<open>
  \<open>ilog2 x\<close> is the one exponent \<open>e\<close> with \<open>2 powi e \<le> \<bar>x\<bar> < 2 powi (e + 1)\<close>.
\<close>

lemma of_int_less_powi_bitlen:
  assumes "0 < p"
  shows "(of_int p :: rat) < 2 powi bitlen p" and "(2::rat) powi (bitlen p - 1) \<le> of_int p"
proof -
  from bitlen_bounds [OF assms]
  have b: "2 ^ nat (bitlen p - 1) \<le> p" "p < 2 ^ nat (bitlen p)"
    by simp_all
  have pos: "0 < bitlen p"
    using assms bitlen_nonneg [of p] bitlen_eq_zero_iff [of p] by linarith
  from b(2) have "(of_int p :: rat) < of_int (2 ^ nat (bitlen p))"
    by (simp only: of_int_less_iff)
  then show "(of_int p :: rat) < 2 powi bitlen p"
    using pos by (simp add: power_int_def)
  from b(1) have "(of_int (2 ^ nat (bitlen p - 1)) :: rat) \<le> of_int p"
    by (simp only: of_int_le_iff)
  then show "(2::rat) powi (bitlen p - 1) \<le> of_int p"
    using pos by (simp add: power_int_def)
qed

lemma ilog2_bounds:
  assumes "x \<noteq> 0"
  shows "2 powi ilog2 x \<le> \<bar>x\<bar>" and "\<bar>x\<bar> < 2 powi (ilog2 x + 1)"
proof -
  obtain p q where pq: "quotient_of \<bar>x\<bar> = (p, q)"
    by (cases "quotient_of \<bar>x\<bar>") auto
  then have q: "0 < q" and x: "\<bar>x\<bar> = of_int p / of_int q"
    by (simp_all add: quotient_of_denom_pos quotient_of_div)
  from assms have "0 < \<bar>x\<bar>"
    by simp
  with x q have p: "0 < p"
    by (simp add: zero_less_divide_iff)
  define d where "d = bitlen p - bitlen q"
  have "\<bar>x\<bar> < 2 powi bitlen p / 2 powi (bitlen q - 1)"
    unfolding x
    using of_int_less_powi_bitlen [OF p] of_int_less_powi_bitlen [OF q] p
    by (intro frac_less) simp_all
  also have "\<dots> = 2 powi (d + 1)"
    by (simp add: d_def power_int_diff [symmetric] algebra_simps)
  finally have up: "\<bar>x\<bar> < 2 powi (d + 1)" .
  have "(2::rat) powi (bitlen p - 1) / 2 powi bitlen q < \<bar>x\<bar>"
    unfolding x
    using of_int_less_powi_bitlen [OF p] of_int_less_powi_bitlen [OF q] q
    by (intro frac_less2) simp_all
  also have "(2::rat) powi (bitlen p - 1) / 2 powi bitlen q = 2 powi (d - 1)"
    by (simp add: d_def power_int_diff [symmetric] algebra_simps)
  finally have low: "2 powi (d - 1) < \<bar>x\<bar>" .
  have i: "ilog2 x = (if 2 powi d \<le> \<bar>x\<bar> then d else d - 1)"
    by (simp add: ilog2_def pq d_def Let_def)
  show "2 powi ilog2 x \<le> \<bar>x\<bar>"
    using low by (simp add: i)
  show "\<bar>x\<bar> < 2 powi (ilog2 x + 1)"
    using up by (simp add: i)
qed

lemma powi2_less_imp_less:
  assumes "(2::rat) powi a < 2 powi b"
  shows "a < b"
proof (rule ccontr)
  assume "\<not> a < b"
  then have "(2::rat) powi b \<le> 2 powi a"
    by (intro power_int_increasing) simp_all
  with assms show False by simp
qed

lemma ilog2_eqI:
  assumes "2 powi e \<le> \<bar>x\<bar>" and "\<bar>x\<bar> < 2 powi (e + 1)"
  shows "ilog2 x = e"
proof -
  have "x \<noteq> 0"
    using assms(1) by (metis abs_zero linorder_not_less zero_less_numeral zero_less_power_int)
  from ilog2_bounds [OF this] assms
  have a: "(2::rat) powi ilog2 x < 2 powi (e + 1)" and b: "(2::rat) powi e < 2 powi (ilog2 x + 1)"
    by linarith+
  from powi2_less_imp_less [OF a] powi2_less_imp_less [OF b]
  show ?thesis by simp
qed

lemma ilog2_mono:
  assumes "x \<noteq> 0" and "\<bar>x\<bar> \<le> \<bar>y\<bar>"
  shows "ilog2 x \<le> ilog2 y"
proof -
  from assms have "y \<noteq> 0" by auto
  from ilog2_bounds(1) [OF assms(1)] ilog2_bounds(2) [OF this] assms(2)
  have "(2::rat) powi ilog2 x < 2 powi (ilog2 y + 1)"
    by linarith
  then have "ilog2 x < ilog2 y + 1"
    by (rule powi2_less_imp_less)
  then show ?thesis by simp
qed

lemma ilog2_minus [simp]: "ilog2 (- x) = ilog2 x"
  by (simp add: ilog2_def)

lemma ulp_pos [simp]: "0 < ulp x"
  by (simp add: ulp_def)

lemma ulp_nonneg [simp]: "0 \<le> ulp x"
  using ulp_pos [of x] by (simp only: less_imp_le)

lemma ulp_neq_0 [simp]: "ulp x \<noteq> 0"
  by (simp add: ulp_def)

lemma ulp_minus [simp]: "ulp (- x) = ulp x"
  by (simp add: ulp_def)

lemma nearest_minus: "nearest (- x) = - nearest x"
  by (simp add: nearest_def round_half_even_minus)

text \<open>
  Rounding to a multiple of \<open>u\<close> never crosses a multiple of \<open>u\<close>.
\<close>

lemma grid_le:
  assumes "0 < u" and "x \<le> of_int k * u"
  shows "of_int (round_half_even (x / u)) * u \<le> of_int k * u"
proof -
  from assms have "x / u \<le> of_int k"
    by (simp add: pos_divide_le_eq)
  from round_half_even_mono [OF this] have "round_half_even (x / u) \<le> k"
    by simp
  then have "(of_int (round_half_even (x / u)) :: rat) \<le> of_int k"
    by (simp only: of_int_le_iff)
  with assms(1) show ?thesis
    by (simp add: mult_right_mono)
qed

lemma grid_ge:
  assumes "0 < u" and "of_int k * u \<le> x"
  shows "of_int k * u \<le> of_int (round_half_even (x / u)) * u"
proof -
  from assms have "of_int k \<le> x / u"
    by (simp add: pos_le_divide_eq)
  from round_half_even_mono [OF this] have "k \<le> round_half_even (x / u)"
    by simp
  then have "(of_int k :: rat) \<le> of_int (round_half_even (x / u))"
    by (simp only: of_int_le_iff)
  with assms(1) show ?thesis
    by (simp add: mult_right_mono)
qed

lemma nearest_nonneg: "0 \<le> x \<Longrightarrow> 0 \<le> nearest x"
  using grid_ge [of "ulp x" 0 x] by (simp add: nearest_def)

lemma nearest_0 [simp]: "nearest 0 = 0"
  using round_half_even_of_int [of 0] by (simp add: nearest_def)

text \<open>
  Rounding to binary64 is monotone. Within one binade it is rounding on one grid; between
  two binades lies a power of two that belongs to both grids.
\<close>

lemma ulp_mono:
  assumes "x \<noteq> 0" and "\<bar>x\<bar> \<le> \<bar>y\<bar>"
  shows "ulp x \<le> ulp y"
  using ilog2_mono [OF assms] by (simp add: ulp_def power_int_increasing)

lemma nearest_mono_pos:
  assumes "0 < x" and "x \<le> y"
  shows "nearest x \<le> nearest y"
proof -
  define ex where "ex = max (ilog2 x) (- 1022) - 52"
  define ey where "ey = max (ilog2 y) (- 1022) - 52"
  have ux: "ulp x = 2 powi ex" and uy: "ulp y = 2 powi ey"
    by (simp_all add: ulp_def ex_def ey_def)
  from assms have xy: "x \<noteq> 0" "y \<noteq> 0" "\<bar>x\<bar> \<le> \<bar>y\<bar>" "\<bar>x\<bar> = x" "\<bar>y\<bar> = y"
    by simp_all
  from ilog2_mono [OF xy(1) xy(3)] have le: "ex \<le> ey"
    by (simp add: ex_def ey_def)
  show ?thesis
  proof (cases "ex = ey")
    case True
    then have u: "ulp x = ulp y"
      by (simp add: ux uy)
    have "x / ulp y \<le> y / ulp y"
      using assms(2) ulp_pos [of y] by (intro divide_right_mono) simp_all
    from round_half_even_mono [OF this]
    have "(of_int (round_half_even (x / ulp y)) :: rat) \<le> of_int (round_half_even (y / ulp y))"
      by (simp only: of_int_le_iff)
    then show ?thesis
      by (simp add: nearest_def u mult_right_mono)
  next
    case False
    with le have lt: "ex < ey" by simp
    define L where "L = ilog2 y"
    from lt have Ly: "ey = L - 52" and xL: "ilog2 x + 1 \<le> L" and exL: "ex \<le> L"
      by (auto simp: ex_def ey_def L_def)
    from ilog2_bounds [OF xy(1)] xy(4) have "x < 2 powi (ilog2 x + 1)"
      by simp
    also have "\<dots> \<le> 2 powi L"
      using xL by (intro power_int_increasing) simp_all
    finally have xg: "x \<le> 2 powi L"
      by simp
    from ilog2_bounds [OF xy(2)] xy(5) have gy: "2 powi L \<le> y"
      by (simp add: L_def)
    have gx: "(2::rat) powi L = of_int (2 ^ nat (L - ex)) * ulp x"
    proof -
      have "(2::rat) powi L = 2 powi (L - ex) * 2 powi ex"
        by (simp add: power_int_add [symmetric])
      also have "(2::rat) powi (L - ex) = of_int (2 ^ nat (L - ex))"
        using exL by (simp add: power_int_def)
      finally show ?thesis
        by (simp add: ux)
    qed
    have gy': "(2::rat) powi L = of_int (2 ^ 52) * ulp y"
    proof -
      have "(2::rat) powi (52 + (L - 52)) = 2 powi 52 * 2 powi (L - 52)"
        by (rule power_int_add) simp
      then show ?thesis
        by (simp add: uy Ly)
    qed
    have "nearest x \<le> 2 powi L"
      unfolding nearest_def
      using grid_le [of "ulp x" x "2 ^ nat (L - ex)"] xg gx by simp
    also have "\<dots> \<le> nearest y"
      unfolding nearest_def
      using grid_ge [of "ulp y" "2 ^ 52" y] gy gy' by simp
    finally show ?thesis .
  qed
qed

lemma nearest_mono:
  assumes "x \<le> y"
  shows "nearest x \<le> nearest y"
proof -
  consider "0 < x" | "y < 0" | "x \<le> 0" "0 \<le> y"
    using assms by linarith
  then show ?thesis
  proof cases
    case 1
    from 1 assms show ?thesis
      by (rule nearest_mono_pos)
  next
    case 2
    with assms have "nearest (- y) \<le> nearest (- x)"
      by (intro nearest_mono_pos) simp_all
    then show ?thesis
      by (simp add: nearest_minus)
  next
    case 3
    from 3(1) have "0 \<le> nearest (- x)"
      by (intro nearest_nonneg) simp
    then have "nearest x \<le> 0"
      by (simp add: nearest_minus)
    also from 3(2) have "0 \<le> nearest y"
      by (rule nearest_nonneg)
    finally show ?thesis .
  qed
qed

lemma round64_mono:
  assumes "x \<le> y"
  shows "js_le (round64 x) (round64 y)"
proof -
  note m = nearest_mono [OF assms]
  have sx: "0 \<le> x \<Longrightarrow> 0 \<le> nearest x" and sy: "0 \<le> y \<Longrightarrow> 0 \<le> nearest y"
    by (simp_all add: nearest_nonneg)
  have nx: "x \<le> 0 \<Longrightarrow> nearest x \<le> 0" and ny: "y \<le> 0 \<Longrightarrow> nearest y \<le> 0"
    using nearest_nonneg [of "- x"] nearest_nonneg [of "- y"] by (simp_all add: nearest_minus)
  show ?thesis
    using assms m sx sy nx ny
    by (auto simp: round64_def abs_if split: if_splits)
qed

text \<open>
  A value \<open>m * 2 powi k\<close> with a significand \<open>m\<close> of at most 53 bits and \<open>k\<close> in the
  range of the format is a binary64 value: rounding leaves it alone. The whole numbers
  below \<open>2 ^ 53\<close> in absolute value are such values.
\<close>

lemma round64_exact:
  assumes x: "x = of_int m * 2 powi k" and m: "\<bar>m\<bar> < 2 ^ 53" and k: "- 1074 \<le> k" "k \<le> 971"
  shows "round64 x = Fin x"
proof (cases "x = 0")
  case True
  then show ?thesis by (simp add: round64_def)
next
  case False
  define ue where "ue = max (ilog2 x) (- 1022) - 52"
  have u: "ulp x = 2 powi ue"
    by (simp add: ulp_def ue_def)
  from m have m': "\<bar>of_int m :: rat\<bar> < 2 ^ 53"
    by (metis of_int_abs of_int_less_numeral_power_cancel_iff)
  have absx: "\<bar>x\<bar> = \<bar>of_int m\<bar> * 2 powi k"
    by (simp add: x abs_mult)
  have "\<bar>x\<bar> < 2 ^ 53 * 2 powi k"
    unfolding absx using m' by (intro mult_strict_right_mono) simp_all
  also have "(2::rat) ^ 53 * 2 powi k = 2 powi (53 + k)"
    by (simp add: power_int_add)
  finally have lt: "\<bar>x\<bar> < 2 powi (53 + k)" .
  with ilog2_bounds(1) [OF False] have "(2::rat) powi ilog2 x < 2 powi (53 + k)"
    by linarith
  then have "ilog2 x < 53 + k"
    by (rule powi2_less_imp_less)
  with k have le: "ue \<le> k"
    by (simp add: ue_def)
  have "x / ulp x = x / 2 powi ue"
    by (simp only: u)
  also have "\<dots> = of_int m * (2 powi k / 2 powi ue)"
    by (simp add: x)
  also have "(2::rat) powi k / 2 powi ue = 2 powi (k - ue)"
    by (simp add: power_int_diff)
  also have "\<dots> = of_int (2 ^ nat (k - ue))"
    using le by (simp add: power_int_def)
  finally have q: "x / ulp x = of_int (m * 2 ^ nat (k - ue))"
    by simp
  have "nearest x = of_int (m * 2 ^ nat (k - ue)) * ulp x"
    unfolding nearest_def q round_half_even_of_int ..
  also have "\<dots> = x / ulp x * ulp x"
    by (simp only: q)
  finally have n: "nearest x = x"
    by simp
  have "(2::rat) powi (53 + k) \<le> 2 powi 1024"
    using k by (intro power_int_increasing) simp_all
  with lt have "\<bar>x\<bar> < 2 ^ 1024"
    by simp
  with False n show ?thesis
    by (simp add: round64_def)
qed

lemma round64_of_int:
  assumes "\<bar>k\<bar> < 2 ^ 53"
  shows "round64 (of_int k) = Fin (of_int k)"
  using round64_exact [of "of_int k" k 0] assms by simp

lemma round64_numeral:
  assumes "(numeral n :: int) < 2 ^ 53"
  shows "round64 (numeral n) = Fin (numeral n)"
  using round64_of_int [of "numeral n"] assms by simp

text \<open>
  Rounding a given value, from the binade it lies in: the quotient by the spacing is
  rounded with integer division.
\<close>

lemma round_half_even_fraction:
  assumes "0 < q"
  shows "round_half_even (of_int p / of_int q) =
    (if 2 * (p mod q) < q then p div q
     else if q < 2 * (p mod q) then p div q + 1
     else if even (p div q) then p div q else p div q + 1)"
proof -
  have f: "\<lfloor>(of_int p :: rat) / of_int q\<rfloor> = p div q"
    by (simp add: floor_divide_of_int_eq)
  have "(of_int p :: rat) = of_int (p div q) * of_int q + of_int (p mod q)"
    by (metis of_int_add of_int_mult div_mult_mod_eq)
  then have r: "(of_int p :: rat) / of_int q - of_int (p div q) = of_int (p mod q) / of_int q"
    using assms by (simp add: field_simps)
  have lt: "(of_int (p mod q) / of_int q < (1::rat) / 2) = (2 * (p mod q) < q)"
    using assms by (simp add: field_simps) (metis of_int_less_iff of_int_mult of_int_numeral mult.commute)
  have gt: "((1::rat) / 2 < of_int (p mod q) / of_int q) = (q < 2 * (p mod q))"
    using assms by (simp add: field_simps) (metis of_int_less_iff of_int_mult of_int_numeral mult.commute)
  show ?thesis
    by (simp only: round_half_even_def Let_def f r lt gt)
qed

lemma round64_normal:
  assumes "2 powi e \<le> \<bar>x\<bar>" and "\<bar>x\<bar> < 2 powi (e + 1)" and "- 1022 \<le> e"
    and "x / 2 powi (e - 52) = of_int p / of_int q" and "0 < q"
    and "(if 2 * (p mod q) < q then p div q
          else if q < 2 * (p mod q) then p div q + 1
          else if even (p div q) then p div q else p div q + 1) = m"
    and "\<bar>of_int m * 2 powi (e - 52)\<bar> < (2::rat) ^ 1024"
  shows "round64 x = Fin (of_int m * 2 powi (e - 52))"
proof -
  from assms(1) have "x \<noteq> 0"
    by (metis abs_zero linorder_not_less zero_less_numeral zero_less_power_int)
  have u: "ulp x = 2 powi (e - 52)"
    using ilog2_eqI [OF assms(1,2)] assms(3) by (simp add: ulp_def)
  have "nearest x = of_int m * 2 powi (e - 52)"
    by (simp only: nearest_def u assms(4) round_half_even_fraction [OF assms(5)] assms(6))
  with \<open>x \<noteq> 0\<close> assms(7) show ?thesis
    by (simp add: round64_def)
qed

text \<open>
  Whole numbers below \<open>2 ^ 53\<close> in absolute value are added without rounding.
\<close>

lemma foldl_js_add_integers:
  assumes "map f series = map (\<lambda>k. Fin (of_int k)) ks"
    and "\<bar>a\<bar> + (\<Sum>k\<leftarrow>ks. \<bar>k\<bar>) < 2 ^ 53"
  shows "foldl (\<lambda>sum d. js_add sum (f d)) (Fin (of_int a)) series = Fin (of_int (a + sum_list ks))"
  using assms
proof (induction series arbitrary: a ks)
  case Nil
  then show ?case by simp
next
  case (Cons d series)
  from Cons.prems(1) obtain k ks' where
    ks: "ks = k # ks'" "f d = Fin (of_int k)" "map f series = map (\<lambda>k. Fin (of_int k)) ks'"
    by (cases ks) auto
  have nonneg: "0 \<le> (\<Sum>k\<leftarrow>ks'. \<bar>k\<bar>)"
    by (rule sum_list_nonneg) auto
  with Cons.prems(2) ks(1) have "\<bar>a + k\<bar> < 2 ^ 53"
    by simp
  then have "round64 (of_int (a + k)) = Fin (of_int (a + k))"
    by (rule round64_of_int)
  then have step: "js_add (Fin (of_int a)) (f d) = Fin (of_int (a + k))"
    by (simp add: ks(2))
  from Cons.prems(2) ks(1) have "\<bar>a + k\<bar> + (\<Sum>k\<leftarrow>ks'. \<bar>k\<bar>) < 2 ^ 53"
    by simp
  from Cons.IH [OF ks(3) this] show ?case
    by (simp add: step ks(1) add.assoc)
qed

section \<open>Summary statistics\<close>

lemma max_loop_Fin: "max_loop (Fin h) (map Fin qs) = Fin (fold max qs h)"
  by (induction qs arbitrary: h) (auto simp: max_def)

lemma min_loop_Fin: "min_loop (Fin l) (map Fin qs) = Fin (fold min qs l)"
  by (induction qs arbitrary: l) (auto simp: min_def)

lemma Math_max_Fin: "qs \<noteq> [] \<Longrightarrow> Math_max (map Fin qs) = Fin (Max (set qs))"
proof (cases qs)
  case Nil
  assume "qs \<noteq> []"
  with Nil show ?thesis by simp
next
  case (Cons q qs')
  with Max.set_eq_fold [of q qs'] show ?thesis
    by (simp add: Math_max_def max_loop_Fin)
qed

lemma Math_min_Fin: "qs \<noteq> [] \<Longrightarrow> Math_min (map Fin qs) = Fin (Min (set qs))"
proof (cases qs)
  case Nil
  assume "qs \<noteq> []"
  with Nil show ?thesis by simp
next
  case (Cons q qs')
  with Min.set_eq_fold [of q qs'] show ?thesis
    by (simp add: Math_min_def min_loop_Fin)
qed

lemma sum_list_le_length_times:
  fixes qs :: "rat list"
  assumes "\<forall>q \<in> set qs. q \<le> M"
  shows "sum_list qs \<le> of_nat (length qs) * M"
  using assms by (induction qs) (auto simp: algebra_simps)

lemma sum_list_ge_length_times:
  fixes qs :: "rat list"
  assumes "\<forall>q \<in> set qs. m \<le> q"
  shows "of_nat (length qs) * m \<le> sum_list qs"
  using assms by (induction qs) (auto simp: algebra_simps)

lemma column_ordered:
  assumes ne: "hs \<noteq> []"
    and fin: "map f hs = map Fin qs"
    and rep: "\<forall>q \<in> set qs. round64 q = Fin q"
    and exact: "reduce_sum f hs = Fin (sum_list qs)"
  shows "js_le (Lowest (column f hs)) (Average (column f hs)) \<and>
         js_le (Average (column f hs)) (Highest (column f hs))"
proof -
  from fin have len: "length qs = length hs"
    by (metis length_map)
  with ne have qne: "qs \<noteq> []" by auto
  have n: "0 < length hs" using ne by simp
  define mean where "mean = sum_list qs / of_nat (length hs)"
  have hi: "Highest (column f hs) = Fin (Max (set qs))"
    by (simp add: column_def fin Math_max_Fin [OF qne])
  have lo: "Lowest (column f hs) = Fin (Min (set qs))"
    by (simp add: column_def fin Math_min_Fin [OF qne])
  have av: "Average (column f hs) = round64 mean"
    using n by (simp add: column_def exact mean_def)
  have "sum_list qs \<le> of_nat (length qs) * Max (set qs)"
    by (rule sum_list_le_length_times) simp
  then have up: "mean \<le> Max (set qs)"
    using n by (simp add: mean_def len pos_divide_le_eq mult.commute)
  have "of_nat (length qs) * Min (set qs) \<le> sum_list qs"
    by (rule sum_list_ge_length_times) simp
  then have low: "Min (set qs) \<le> mean"
    using n by (simp add: mean_def len pos_le_divide_eq mult.commute)
  have "Max (set qs) \<in> set qs" "Min (set qs) \<in> set qs"
    using qne by (simp_all add: Max_in Min_in)
  with rep have r: "round64 (Max (set qs)) = Fin (Max (set qs))" "round64 (Min (set qs)) = Fin (Min (set qs))"
    by simp_all
  from round64_mono [OF up] round64_mono [OF low] show ?thesis
    by (simp add: hi lo av r)
qed

text \<open>
  Whole-number readings, such as raw tenths of a unit, whose absolute values add up to
  less than \<open>2 ^ 53\<close> are of this kind.
\<close>

lemma exact_column_integers:
  assumes "map f series = map (\<lambda>k. Fin (of_int k)) ks" and "(\<Sum>k\<leftarrow>ks. \<bar>k\<bar>) < 2 ^ 53"
  shows "exact_column f series (map of_int ks)"
proof -
  have "\<bar>k\<bar> < 2 ^ 53" if "k \<in> set ks" for k
  proof -
    from that have "\<bar>k\<bar> \<le> (\<Sum>k\<leftarrow>ks. \<bar>k\<bar>)"
      by (intro member_le_sum_list) auto
    with assms(2) show ?thesis by simp
  qed
  then have rep: "list_all (\<lambda>q. round64 q = Fin q) (map of_int ks)"
    by (simp add: list_all_iff round64_of_int)
  from foldl_js_add_integers [of f series ks 0] assms
  have "reduce_sum f series = Fin (of_int (sum_list ks))"
    by (simp add: reduce_sum_def)
  moreover have "(of_int (sum_list ks) :: rat) = sum_list (map of_int ks)"
    by (induction ks) simp_all
  ultimately have "reduce_sum f series = Fin (sum_list (map of_int ks))"
    by simp
  with assms(1) rep show ?thesis
    by (simp add: exact_column_def comp_def)
qed

text \<open>
  What the guard keeps from the screen: on an empty series the three expressions would
  give \<^verbatim>\<open>-Infinity\<close>, \<^verbatim>\<open>Infinity\<close> and the \<^verbatim>\<open>NaN\<close> of \<^verbatim>\<open>0 / 0\<close>.
\<close>

lemma column_empty: "column f [] = \<lparr>Highest = NegInf, Lowest = PosInf, Average = NaN\<rparr>"
  by (simp add: column_def Math_max_def Math_min_def reduce_sum_def)

text \<open>A series read back from its JSON form is the series.\<close>

lemma reading_of_reading_json: "reading_of (reading_json d) = Some d"
  by (simp add: reading_json_def)

lemma readings_series_json: "readings (series_json series) = Some series"
  by (induction series) (simp_all add: series_json_def reading_of_reading_json)

subsection \<open>Values as they are shown\<close>

text \<open>
  \<^verbatim>\<open>toFixed\<close> on a fraction of integers, by integer division, for computing examples.
\<close>

lemma toFixed_fraction:
  assumes "0 \<le> p" and "0 < q" and "(of_int p / of_int q :: rat) < 10 ^ 21"
  shows "toFixed f (Fin (of_int p / of_int q)) =
    Fixed False (nat ((2 * p * 10 ^ f + q) div (2 * q))) f"
proof -
  define x :: rat where "x = of_int p / of_int q"
  have nn: "0 \<le> x"
    using assms(1,2) by (simp add: x_def)
  have lt: "x < 10 ^ 21"
    using assms(3) by (simp only: x_def)
  have "x * 10 ^ f + 1 / 2 = of_int (2 * p * 10 ^ f + q) / of_int (2 * q)"
    using assms(2) by (simp add: x_def field_simps)
  then have fl: "\<lfloor>x * 10 ^ f + 1 / 2\<rfloor> = (2 * p * 10 ^ f + q) div (2 * q)"
    by (simp only: floor_divide_of_int_eq)
  have "toFixed f (Fin x) = Fixed False (nat \<lfloor>x * 10 ^ f + 1 / 2\<rfloor>) f"
    using nn lt by (simp add: toFixed_def abs_of_nonneg not_le)
  then show ?thesis
    unfolding fl by (simp only: x_def)
qed

text \<open>
  \<^verbatim>\<open>toFixed\<close> keeps the order of numbers: it rounds the absolute value to a
  multiple of a power of ten, which keeps the order, and a number it leaves to
  \<^verbatim>\<open>toString\<close> is at least \<open>10 ^ 21\<close> in absolute value, which no rounded value
  exceeds.
\<close>

lemma toFixed_Fin_mono:
  assumes "a \<le> b"
  shows "shown_le (toFixed f (Fin a)) (toFixed f (Fin b))"
proof -
  define h :: "rat \<Rightarrow> rat" where
    "h x = (if 10 ^ 21 \<le> x then x else of_int \<lfloor>x * 10 ^ f + 1 / 2\<rfloor> / 10 ^ f)" for x
  have fl: "0 \<le> \<lfloor>x * 10 ^ f + 1 / 2\<rfloor>" if "0 \<le> x" for x :: rat
    using that by simp
  have v: "shown_value (toFixed f (Fin q)) = Fin (if q < 0 then - h \<bar>q\<bar> else h \<bar>q\<bar>)" for q
  proof -
    define a where "a = \<bar>q\<bar>"
    have "0 \<le> a" by (simp add: a_def)
    from fl [OF this]
    have n: "rat_of_nat (nat \<lfloor>a * 10 ^ f + 1 / 2\<rfloor>) = of_int \<lfloor>a * 10 ^ f + 1 / 2\<rfloor>"
      by simp
    have q: "q = (if q < 0 then - a else a)"
      by (simp add: a_def)
    have "shown_value (toFixed f (Fin q)) =
        (if 10 ^ 21 \<le> a then Fin q
         else Fin ((if q < 0 then - 1 else 1) * of_int \<lfloor>a * 10 ^ f + 1 / 2\<rfloor> / 10 ^ f))"
      by (simp add: toFixed_def flip: a_def n)
    also have "\<dots> = Fin (if q < 0 then - h a else h a)"
      using q by (auto simp: h_def)
    finally show ?thesis
      by (simp only: a_def)
  qed
  have h0: "0 \<le> h x" if "0 \<le> x" for x
    using that fl [of x] by (simp add: h_def)
  have small: "h x \<le> 10 ^ 21" if "0 \<le> x" "x < 10 ^ 21" for x
  proof -
    have "x * 10 ^ f + 1 / 2 < 10 ^ 21 * 10 ^ f + 1"
      using that(2) by (simp add: add_strict_mono)
    also have "\<dots> = of_int (10 ^ 21 * 10 ^ f + 1)"
      by simp
    finally have "\<lfloor>x * 10 ^ f + 1 / 2\<rfloor> < 10 ^ 21 * 10 ^ f + 1"
      by (simp only: floor_less_iff)
    then have "\<lfloor>x * 10 ^ f + 1 / 2\<rfloor> \<le> 10 ^ 21 * 10 ^ f"
      by simp
    then have "(of_int \<lfloor>x * 10 ^ f + 1 / 2\<rfloor> :: rat) \<le> of_int (10 ^ 21 * 10 ^ f)"
      by (simp only: of_int_le_iff)
    then have "(of_int \<lfloor>x * 10 ^ f + 1 / 2\<rfloor> :: rat) / 10 ^ f \<le> 10 ^ 21"
      by (simp add: pos_divide_le_eq)
    with that(2) show ?thesis
      by (simp add: h_def)
  qed
  have hm: "h x \<le> h y" if "0 \<le> x" "x \<le> y" for x y
  proof (cases "10 ^ 21 \<le> y")
    case True
    show ?thesis
    proof (cases "10 ^ 21 \<le> x")
      case True
      with \<open>10 ^ 21 \<le> y\<close> that(2) show ?thesis by (simp add: h_def)
    next
      case False
      with small [of x] that(1) have "h x \<le> 10 ^ 21" by simp
      with True show ?thesis by (simp add: h_def)
    qed
  next
    case False
    with that(2) have x: "\<not> 10 ^ 21 \<le> x" by simp
    have "x * 10 ^ f + 1 / 2 \<le> y * 10 ^ f + 1 / 2"
      using that(2) by (simp add: mult_right_mono)
    then have "\<lfloor>x * 10 ^ f + 1 / 2\<rfloor> \<le> \<lfloor>y * 10 ^ f + 1 / 2\<rfloor>"
      by (rule floor_mono)
    then have "(of_int \<lfloor>x * 10 ^ f + 1 / 2\<rfloor> :: rat) \<le> of_int \<lfloor>y * 10 ^ f + 1 / 2\<rfloor>"
      by (simp only: of_int_le_iff)
    then have "(of_int \<lfloor>x * 10 ^ f + 1 / 2\<rfloor> :: rat) / 10 ^ f \<le> of_int \<lfloor>y * 10 ^ f + 1 / 2\<rfloor> / 10 ^ f"
      by (simp add: divide_right_mono)
    with False x show ?thesis by (simp add: h_def)
  qed
  consider "0 \<le> a" | "a < 0" "0 \<le> b" | "b < 0"
    using assms by linarith
  then have "(if a < 0 then - h \<bar>a\<bar> else h \<bar>a\<bar>) \<le> (if b < 0 then - h \<bar>b\<bar> else h \<bar>b\<bar>)"
  proof cases
    case 1
    with assms hm [of a b] show ?thesis by simp
  next
    case 2
    with h0 [of "\<bar>a\<bar>"] h0 [of "\<bar>b\<bar>"] show ?thesis by simp
  next
    case 3
    with assms hm [of "- b" "- a"] show ?thesis by simp
  qed
  then show ?thesis
    by (simp only: shown_le_def v js_le.simps)
qed

lemma shown_value_toFixed_eq_NaN: "shown_value (toFixed f x) = NaN \<longleftrightarrow> x = NaN"
  by (cases x) (simp_all add: toFixed_def)

lemma toFixed_mono:
  assumes "js_le x y"
  shows "shown_le (toFixed f x) (toFixed f y)"
proof (cases x)
  case NaN
  with assms show ?thesis by simp
next
  case NegInf
  with assms have "y \<noteq> NaN" by (cases y) simp_all
  then have "shown_value (toFixed f y) \<noteq> NaN"
    by (simp add: shown_value_toFixed_eq_NaN)
  with NegInf show ?thesis
    by (cases "shown_value (toFixed f y)") (simp_all add: shown_le_def toFixed_def)
next
  case PosInf
  with assms have "y = PosInf" by (cases y) simp_all
  with PosInf show ?thesis by (simp add: shown_le_def toFixed_def)
next
  case (Fin a)
  show ?thesis
  proof (cases y)
    case (Fin b)
    with \<open>x = Fin a\<close> assms toFixed_Fin_mono [of a b f] show ?thesis by simp
  next
    case PosInf
    have "shown_value (toFixed f (Fin a)) \<noteq> NaN"
      by (simp add: shown_value_toFixed_eq_NaN)
    with PosInf \<open>x = Fin a\<close> show ?thesis
      by (cases "shown_value (toFixed f (Fin a))") (simp_all add: shown_le_def toFixed_def)
  next
    case NaN
    with \<open>x = Fin a\<close> assms show ?thesis by simp
  next
    case NegInf
    with \<open>x = Fin a\<close> assms show ?thesis by simp
  qed
qed

lemma shown_sample_texts:
  "fixed_text False 2100 1 = ''210.0'' \<and> fixed_text False 50000 2 = ''500.00'' \<and>
   fixed_text False 154 1 = ''15.4'' \<and> fixed_text False 155 1 = ''15.5'' \<and>
   fixed_text False 2515 2 = ''25.15'' \<and> fixed_text False 251 1 = ''25.1'' \<and>
   fixed_text True 4 2 = ''-0.04''"
  by (simp add: fixed_text_def nat_toString.simps digit_char_def)

subsection \<open>The guard\<close>

text \<open>
  C3. The summary is rendered exactly when the series is non-empty. Whenever it is
  rendered, each of its two averages shows the running sum divided by the length of the
  series, and that length is not zero. When a query resolves with an empty array, the
  series becomes empty and the summary is not rendered, so nothing is divided at all.
\<close>

theorem C3_summary_only_when_non_empty:
  "(Daily_Summary series = None \<longleftrightarrow> series = []) \<and>
   (\<forall>T H. Daily_Summary series = Some (T, H) \<longrightarrow>
      length series \<noteq> 0 \<and>
      Average T = toFixed 1 (divide_by_length (reduce_sum temperature series) (length series)) \<and>
      Average H = toFixed 1 (divide_by_length (reduce_sum humidity series) (length series))) \<and>
   (\<exists>st'. fetch_settled (Inr \<lparr>status = code, body_json = Inr (series_json [])\<rparr>) st =
        Inr (st', []) \<and>
      historicalData st' = JArr [] \<and> readings (historicalData st') = Some [] \<and>
      Daily_Summary [] = None)"
  by (auto simp: Daily_Summary_def column_def fetch_settled_def series_json_def)

theorem C3_summary_only_when_non_empty_witness:
  "Daily_Summary sample_series =
     Some (\<lparr>Highest = Fixed False 2100 1, Lowest = Fixed False 2000 1,
            Average = Fixed False 2050 1\<rparr>,
           \<lparr>Highest = Fixed False 50000 2, Lowest = Fixed False 48000 2,
            Average = Fixed False 4900 1\<rparr>) \<and>
   length sample_series = 3 \<and>
   Daily_Summary [] = None"
  using C3_summary_only_when_non_empty [of sample_series]
    C3_summary_only_when_non_empty [of "[]"]
    toFixed_fraction [of 210 1 1] toFixed_fraction [of 200 1 1] toFixed_fraction [of 205 1 1]
    toFixed_fraction [of 500 1 2] toFixed_fraction [of 480 1 2] toFixed_fraction [of 490 1 1]
  by (simp add: Daily_Summary_def column_def sample_series_def Math_max_def Math_min_def
      reduce_sum_def round64_numeral)

subsection \<open>The average between the extremes\<close>

text \<open>
  C6, for a series whose sums are exact. For every non-empty series whose temperature
  readings and whose humidity readings are finite binary64 values that \<^verbatim>\<open>reduce\<close>
  adds up without rounding, the summary is rendered, and:

  \<^item> the temperatures it shows are in order, the lowest at most the average and the
    average at most the highest;

  \<^item> the humidity numbers it computes are in order before they are shown, and so are the
    lowest and the highest humidity it shows;

  \<^item> the average humidity it shows, which has one fraction digit, lies between the
    lowest and the highest humidity taken to one fraction digit.

  The quotient of the exact sum by the length lies between the extremes; rounding it to
  binary64 cannot carry it past either of them, because they are binary64 values
  themselves; and \<^verbatim>\<open>toFixed\<close> with one number of fraction digits keeps the order. The
  statement does not compare the average humidity on the screen with the extremes on the
  screen, which have two fraction digits.
\<close>

theorem C6_shown_mean_between_extremes_when_sum_exact:
  assumes "series \<noteq> []"
    and "exact_column temperature series ts"
    and "exact_column humidity series us"
  shows "\<exists>T H. Daily_Summary series = Some (T, H) \<and>
    shown_le (Lowest T) (Average T) \<and> shown_le (Average T) (Highest T) \<and>
    js_le (Lowest (column humidity series)) (Average (column humidity series)) \<and>
    js_le (Average (column humidity series)) (Highest (column humidity series)) \<and>
    shown_le (Lowest H) (Highest H) \<and>
    shown_le (toFixed 1 (Lowest (column humidity series))) (Average H) \<and>
    shown_le (Average H) (toFixed 1 (Highest (column humidity series)))"
proof -
  from assms(2) have t: "map temperature series = map Fin ts"
    "\<forall>q \<in> set ts. round64 q = Fin q"
    "reduce_sum temperature series = Fin (sum_list ts)"
    by (simp_all add: exact_column_def list_all_iff)
  from assms(3) have u: "map humidity series = map Fin us"
    "\<forall>q \<in> set us. round64 q = Fin q"
    "reduce_sum humidity series = Fin (sum_list us)"
    by (simp_all add: exact_column_def list_all_iff)
  from column_ordered [OF assms(1) t]
  have to: "js_le (Lowest (column temperature series)) (Average (column temperature series))"
    "js_le (Average (column temperature series)) (Highest (column temperature series))"
    by simp_all
  from column_ordered [OF assms(1) u]
  have uo: "js_le (Lowest (column humidity series)) (Average (column humidity series))"
    "js_le (Average (column humidity series)) (Highest (column humidity series))"
    by simp_all
  from assms(1) u(1) have "us \<noteq> []" by auto
  with u(1) have
    "Lowest (column humidity series) = Fin (Min (set us))"
    "Highest (column humidity series) = Fin (Max (set us))"
    by (simp_all add: column_def Math_min_Fin Math_max_Fin)
  moreover have "Min (set us) \<le> Max (set us)"
    using \<open>us \<noteq> []\<close> by simp
  ultimately have lh: "js_le (Lowest (column humidity series)) (Highest (column humidity series))"
    by simp
  from assms(1) have d: "Daily_Summary series =
    Some (\<lparr>Highest = toFixed 1 (Highest (column temperature series)),
           Lowest = toFixed 1 (Lowest (column temperature series)),
           Average = toFixed 1 (Average (column temperature series))\<rparr>,
          \<lparr>Highest = toFixed 2 (Highest (column humidity series)),
           Lowest = toFixed 2 (Lowest (column humidity series)),
           Average = toFixed 1 (Average (column humidity series))\<rparr>)"
    by (simp add: Daily_Summary_def)
  from toFixed_mono [OF to(1), of 1] toFixed_mono [OF to(2), of 1] uo
    toFixed_mono [OF lh, of 2] toFixed_mono [OF uo(1), of 1] toFixed_mono [OF uo(2), of 1]
  show ?thesis
    by (simp add: d)
qed

theorem C6_shown_mean_between_extremes_when_sum_exact_witness:
  "sample_series \<noteq> [] \<and>
   exact_column temperature sample_series [210, 205, 200] \<and>
   exact_column humidity sample_series [480, 490, 500] \<and>
   Daily_Summary sample_series =
     Some (\<lparr>Highest = Fixed False 2100 1, Lowest = Fixed False 2000 1,
            Average = Fixed False 2050 1\<rparr>,
           \<lparr>Highest = Fixed False 50000 2, Lowest = Fixed False 48000 2,
            Average = Fixed False 4900 1\<rparr>) \<and>
   shown_le (Fixed False 2000 1) (Fixed False 2050 1) \<and>
   shown_le (Fixed False 2050 1) (Fixed False 2100 1) \<and>
   column humidity sample_series = \<lparr>Highest = Fin 500, Lowest = Fin 480, Average = Fin 490\<rparr> \<and>
   js_le (Fin 480) (Fin 490) \<and> js_le (Fin 490) (Fin 500) \<and>
   shown_le (Fixed False 48000 2) (Fixed False 50000 2) \<and>
   shown_le (toFixed 1 (Fin 480)) (Fixed False 4900 1) \<and>
   shown_le (Fixed False 4900 1) (toFixed 1 (Fin 500))"
proof -
  have ne: "sample_series \<noteq> []"
    by (simp add: sample_series_def)
  have t: "exact_column temperature sample_series [210, 205, 200]"
    by (simp add: exact_column_def sample_series_def reduce_sum_def round64_numeral)
  have u: "exact_column humidity sample_series [480, 490, 500]"
    by (simp add: exact_column_def sample_series_def reduce_sum_def round64_numeral)
  have c: "column humidity sample_series =
      \<lparr>Highest = Fin 500, Lowest = Fin 480, Average = Fin 490\<rparr>"
    by (simp add: column_def sample_series_def Math_max_def Math_min_def reduce_sum_def
        round64_numeral)
  have d: "Daily_Summary sample_series =
     Some (\<lparr>Highest = Fixed False 2100 1, Lowest = Fixed False 2000 1,
            Average = Fixed False 2050 1\<rparr>,
           \<lparr>Highest = Fixed False 50000 2, Lowest = Fixed False 48000 2,
            Average = Fixed False 4900 1\<rparr>)"
    using toFixed_fraction [of 210 1 1] toFixed_fraction [of 200 1 1]
      toFixed_fraction [of 205 1 1] toFixed_fraction [of 500 1 2]
      toFixed_fraction [of 480 1 2] toFixed_fraction [of 490 1 1]
    by (simp add: Daily_Summary_def column_def sample_series_def Math_max_def Math_min_def
        reduce_sum_def round64_numeral)
  from C6_shown_mean_between_extremes_when_sum_exact [OF ne t u] ne t u c d show ?thesis
    by simp
qed

subsection \<open>Six readings of 15.45\<close>

text \<open>
  The decimal 15.45 is not a binary64 value; \<^verbatim>\<open>JSON.parse\<close> reads it as the
  nearest one, \<open>4348788390179635 / 2 ^ 48\<close>, which is below 15.45 and is shown as 15.4.
  The third to the sixth addition of \<^verbatim>\<open>reduce\<close> round, and so does the division:
  the average of six such readings is the next binary64 value above each of them, which
  is above 15.45 and is shown as 15.5.
\<close>

lemma literal_15_45:
  "round64 (1545 / 100) = Fin (4348788390179635 / 281474976710656)"
  using round64_normal [of 3 "309 / 20" 43487883901796352 5 8697576780359270]
  by (simp add: power_int_minus)

lemma steady_sum_1:
  "round64 (4348788390179635 / 281474976710656) = Fin (4348788390179635 / 281474976710656)"
  using round64_exact [of "4348788390179635 / 281474976710656" 4348788390179635 "- 48"]
  by (simp add: power_int_minus)

lemma steady_sum_2:
  "round64 (4348788390179635 / 140737488355328) = Fin (4348788390179635 / 140737488355328)"
  using round64_exact [of "4348788390179635 / 140737488355328" 4348788390179635 "- 47"]
  by (simp add: power_int_minus)

lemma steady_sum_3:
  "round64 (13046365170538905 / 281474976710656) = Fin (1630795646317363 / 35184372088832)"
  using round64_normal [of 5 "13046365170538905 / 281474976710656" 13046365170538905 2 6523182585269452]
  by (simp add: power_int_minus)

lemma steady_sum_4:
  "round64 (17395153560718539 / 281474976710656) = Fin (4348788390179635 / 70368744177664)"
  using round64_normal [of 5 "17395153560718539 / 281474976710656" 17395153560718539 2 8697576780359270]
  by (simp add: power_int_minus)

lemma steady_sum_5:
  "round64 (21743941950898175 / 281474976710656) = Fin (309 / 4)"
  using round64_normal [of 6 "21743941950898175 / 281474976710656" 21743941950898175 4 5435985487724544]
  by (simp add: power_int_minus)

lemma steady_sum_6:
  "round64 (26092730341077811 / 281474976710656) = Fin (6523182585269453 / 70368744177664)"
  using round64_normal [of 6 "26092730341077811 / 281474976710656" 26092730341077811 4 6523182585269453]
  by (simp add: power_int_minus)

lemma steady_average:
  "round64 (6523182585269453 / 422212465065984) = Fin (8697576780359271 / 562949953421312)"
  using round64_normal [of 3 "6523182585269453 / 422212465065984" 26092730341077812 3 8697576780359271]
  by (simp add: power_int_minus)

lemma steady_temperature:
  "column temperature steady_series =
     \<lparr>Highest = Fin (4348788390179635 / 281474976710656),
      Lowest = Fin (4348788390179635 / 281474976710656),
      Average = Fin (8697576780359271 / 562949953421312)\<rparr>"
  using steady_sum_1 steady_sum_2 steady_sum_3 steady_sum_4 steady_sum_5 steady_sum_6
    steady_average
  by (simp add: column_def steady_series_def Math_max_def Math_min_def reduce_sum_def)

lemma steady_humidity:
  "column humidity steady_series = \<lparr>Highest = Fin 50, Lowest = Fin 50, Average = Fin 50\<rparr>"
  by (simp add: column_def steady_series_def Math_max_def Math_min_def reduce_sum_def
      round64_numeral)

theorem C6_steady_series_counterexample:
  "steady_series \<noteq> [] \<and>
   Daily_Summary steady_series =
     Some (\<lparr>Highest = Fixed False 154 1, Lowest = Fixed False 154 1,
            Average = Fixed False 155 1\<rparr>,
           \<lparr>Highest = Fixed False 5000 2, Lowest = Fixed False 5000 2,
            Average = Fixed False 500 1\<rparr>) \<and>
   \<not> shown_le (Fixed False 155 1) (Fixed False 154 1) \<and>
   fixed_text False 155 1 = ''15.5'' \<and> fixed_text False 154 1 = ''15.4''"
proof -
  have ne: "steady_series \<noteq> []"
    by (simp add: steady_series_def)
  have d: "Daily_Summary steady_series =
     Some (\<lparr>Highest = Fixed False 154 1, Lowest = Fixed False 154 1,
            Average = Fixed False 155 1\<rparr>,
           \<lparr>Highest = Fixed False 5000 2, Lowest = Fixed False 5000 2,
            Average = Fixed False 500 1\<rparr>)"
    using ne toFixed_fraction [of 4348788390179635 281474976710656 1]
      toFixed_fraction [of 8697576780359271 562949953421312 1]
      toFixed_fraction [of 50 1 2] toFixed_fraction [of 50 1 1]
    by (simp add: Daily_Summary_def steady_temperature steady_humidity)
  have o: "\<not> shown_le (Fixed False 155 1) (Fixed False 154 1)"
    by (simp add: shown_le_def)
  have x: "fixed_text False 155 1 = ''15.5'' \<and> fixed_text False 154 1 = ''15.4''"
    by (simp add: fixed_text_def nat_toString.simps digit_char_def)
  from ne d o x show ?thesis
    by simp
qed

subsection \<open>One reading with humidity 25.15\<close>

text \<open>
  The two precisions of the humidity column: a single reading with humidity 25.15, which
  is read as a binary64 value below 25.15, is its own lowest value, highest value and
  average, computed without any rounding. The extremes are shown as 25.15 and the
  average as 25.1.
\<close>

lemma literal_25_15:
  "round64 (2515 / 100) = Fin (3539547832136499 / 140737488355328)"
  using round64_normal [of 4 "503 / 20" 35395478321364992 5 7079095664272998]
  by (simp add: power_int_minus)

lemma single_sum:
  "round64 (3539547832136499 / 140737488355328) = Fin (3539547832136499 / 140737488355328)"
  using round64_exact [of "3539547832136499 / 140737488355328" 3539547832136499 "- 47"]
  by (simp add: power_int_minus)

lemma single_humidity_shown_below_lowest:
  "exact_column humidity single_series [3539547832136499 / 140737488355328] \<and>
   Daily_Summary single_series =
     Some (\<lparr>Highest = Fixed False 210 1, Lowest = Fixed False 210 1,
            Average = Fixed False 210 1\<rparr>,
           \<lparr>Highest = Fixed False 2515 2, Lowest = Fixed False 2515 2,
            Average = Fixed False 251 1\<rparr>) \<and>
   \<not> shown_le (Fixed False 2515 2) (Fixed False 251 1)"
  using single_sum toFixed_fraction [of 3539547832136499 140737488355328 2]
    toFixed_fraction [of 3539547832136499 140737488355328 1] toFixed_fraction [of 21 1 1]
  by (simp add: exact_column_def Daily_Summary_def column_def single_series_def Math_max_def
      Math_min_def reduce_sum_def round64_numeral shown_le_def)

subsection \<open>Three readings of 0.1\<close>

text \<open>
  The decimal 0.1 is not a binary64 value; \<^verbatim>\<open>JSON.parse\<close> reads it as the nearest
  one, \<open>3602879701896397 / 2 ^ 55\<close>. Adding three of them rounds up, and so does
  dividing the sum by 3: the average of a series of three such readings is the next
  binary64 value above each of them. All three numbers are shown as 0.1.
\<close>

lemma tenth_literal: "round64 (1 / 10) = Fin (3602879701896397 / 36028797018963968)"
  using round64_normal [of "- 4" "1 / 10" 72057594037927936 10 7205759403792794]
  by (simp add: power_int_minus)

lemma three_tenths:
  "round64 (3602879701896397 / 36028797018963968 + 3602879701896397 / 36028797018963968 +
      3602879701896397 / 36028797018963968) = Fin (1351079888211149 / 4503599627370496)"
  using round64_normal [of "- 2" "10808639105689191 / 36028797018963968" 10808639105689191 2
      5404319552844596]
  by (simp add: power_int_minus)

lemma third_of_three_tenths:
  "round64 (1351079888211149 / 4503599627370496 / 3) = Fin (7205759403792795 / 72057594037927936)"
  using round64_normal [of "- 4" "1351079888211149 / 13510798882111488" 21617278211378384 3
      7205759403792795]
  by (simp add: power_int_minus)

lemma one_tenth: "round64 (3602879701896397 / 36028797018963968) = Fin (3602879701896397 / 36028797018963968)"
  using round64_exact [of "3602879701896397 / 36028797018963968" 3602879701896397 "- 55"]
  by (simp add: power_int_minus)

lemma two_tenths: "round64 (3602879701896397 / 36028797018963968 + 3602879701896397 / 36028797018963968)
    = Fin (3602879701896397 / 18014398509481984)"
  using round64_exact [of "3602879701896397 / 18014398509481984" 3602879701896397 "- 54"]
  by (simp add: power_int_minus)

lemma tenths_average_above_highest:
  "column temperature tenths_series =
     \<lparr>Highest = Fin (3602879701896397 / 36028797018963968),
      Lowest = Fin (3602879701896397 / 36028797018963968),
      Average = Fin (7205759403792795 / 72057594037927936)\<rparr> \<and>
   \<not> js_le (Fin (7205759403792795 / 72057594037927936))
          (Fin (3602879701896397 / 36028797018963968)) \<and>
   toFixed 1 (Fin (7205759403792795 / 72057594037927936)) = Fixed False 1 1 \<and>
   toFixed 1 (Fin (3602879701896397 / 36028797018963968)) = Fixed False 1 1"
  using one_tenth two_tenths three_tenths third_of_three_tenths
    toFixed_fraction [of 7205759403792795 72057594037927936 1]
    toFixed_fraction [of 3602879701896397 36028797018963968 1]
  by (simp add: column_def tenths_series_def Math_max_def Math_min_def reduce_sum_def)

end
